theory Spec2Isabelle
  imports Complex_Main
begin

section \<open>The scrape-job engine of the web scraping pipeline\<close>

text \<open>
  A shallow embedding of \<^verbatim>\<open>scraper.py\<close> (class WebScraper) and \<^verbatim>\<open>database.py\<close>
  (class DatabaseManager), with the constants of \<^verbatim>\<open>config.py\<close> as fields of the
  environment.

  The program is sequential and talks to three outside parties: the network (requests),
  the store (SQLAlchemy engine, sqlite3) and the file system (pandas, open). Each call to
  one of them is a call to an oracle of the environment, indexed by the number of outside
  calls made so far (\<open>tick\<close>), which answers with a result or with an exception. What the
  program does to the outside is kept in the state: the requests and sleeps in order
  (\<open>timeline\<close>), the logger's output (\<open>logged\<close>), the tables and the files.
  Exceptions are values: a function that can raise returns \<open>exn + 'a\<close>.
\<close>

subsection \<open>Exceptions, values, events\<close>

text \<open>
  The exception classes the source names in a handler or raises itself, the ones its
  expressions raise on an absent element, and \<open>OtherError\<close> for any other subclass of
  Exception. A class stands for its subclasses (RequestException for Timeout,
  ConnectionError, HTTPError).
\<close>

datatype exn_class =
  RequestException | SQLAlchemyError | ValueError | KeyError | AttributeError
  | TypeError | IndexError | OSError | OtherError

datatype exn = Exn exn_class string

fun class_of :: "exn \<Rightarrow> exn_class" where
  "class_of (Exn c m) = c"

fun str_exn :: "exn \<Rightarrow> string" where
  "str_exn (Exn c m) = m"

text \<open>A Python float: a number (kept as the real it denotes), an infinity or nan. The
  program does no arithmetic on floats but the success rate, which is left to the
  environment.\<close>

datatype pyfloat = Num real | PosInf | NegInf | NaN

text \<open>A scalar of a record (a Python dict from column name to value).\<close>

datatype scalar = S string | F pyfloat | I int | Null

type_synonym row = "(string \<times> scalar) list"

datatype event = Get string | Sleep nat

datatype level = INFO | WARNING | ERROR

text \<open>
  The messages of the logger, one constructor per call in the source, with the values the
  f-string interpolates. The two \<^verbatim>\<open>logger.debug\<close> calls are below the configured level
  (INFO) and print nothing.
\<close>

datatype msg =
  Fetched string
  | AttemptFailed nat string exn
  | FetchGaveUp string int
  | ScrapingFrom string string
  | ParseError string exn
  | NoData string
  | SavedCsv nat string
  | CsvError exn
  | JobStart string
  | JobDone string int
  | JobFailed string exn
  | AllStart
  | AllDone
  | DbSaved nat string
  | DbSaveError string exn
  | RunLogged string string
  | RunLogError exn
  | Exported nat string string
  | ExportError string exn
  | StatsError exn

text \<open>The statements sent to the store.\<close>

datatype stmt = InsertRows string | InsertLog | SelectAll string | SelectStats

datatype file_content = Csv "row list" | Report row

subsection \<open>The parsed page\<close>

text \<open>
  BeautifulSoup is not part of the repository. An item block is modelled by what the
  selectors of the source find in it; the parser itself is an oracle of the environment
  (\<open>find_all_books\<close>, \<open>find_all_products\<close>, \<open>find_meta_description\<close>), taken to answer
  for every page. The built-ins of Python that read a string are oracles as well:
  \<^verbatim>\<open>float\<close> and \<^verbatim>\<open>int\<close> (\<open>py_float\<close>, \<open>py_int\<close>, None standing for their
  ValueError), \<^verbatim>\<open>s.strip()\<close> (\<open>py_strip\<close>) and \<^verbatim>\<open>s.split()\<close> (\<open>py_words\<close>), whose white
  space is that of Unicode.
\<close>

record anchor =
  a_attrs :: "(string \<times> string) list"
  a_text :: string

text \<open>
  An \<^verbatim>\<open>article.product_pod\<close> block:
  \<open>bt_h3\<close> is \<^verbatim>\<open>book.h3\<close> (None without an h3) and in it \<^verbatim>\<open>.a\<close> (None without an anchor);
  \<open>bt_price\<close> is the text of \<^verbatim>\<open>find('p', class_='price_color')\<close>;
  \<open>bt_p_class\<close> is \<^verbatim>\<open>book.p\<close> and in it the value of its class attribute;
  \<open>bt_availability\<close> is the text of \<^verbatim>\<open>find('p', class_='instock availability')\<close>.
\<close>

record book_tag =
  bt_h3 :: "anchor option option"
  bt_price :: "string option"
  bt_p_class :: "string list option option"
  bt_availability :: "string option"

text \<open>
  A \<^verbatim>\<open>div.thumbnail\<close> block: the anchor \<^verbatim>\<open>a.title\<close>, the texts of \<^verbatim>\<open>h4.price\<close>,
  \<^verbatim>\<open>p.description\<close> and \<^verbatim>\<open>p.review-count\<close>, and the value of the data-rating attribute
  of the first p that has one.
\<close>

record product_tag =
  pt_name :: "anchor option"
  pt_price :: "string option"
  pt_desc :: "string option"
  pt_rating :: "string option"
  pt_reviews :: "string option"

subsection \<open>Environment and state\<close>

record env =
  max_retries :: int
  delay_between_requests :: nat
  books_urls :: "string list"
  products_urls :: "string list"
  net :: "nat \<Rightarrow> string \<Rightarrow> exn + string"
  db :: "nat \<Rightarrow> stmt \<Rightarrow> exn option"
  fs :: "nat \<Rightarrow> string \<Rightarrow> exn option"
  find_all_books :: "string \<Rightarrow> book_tag list"
  find_all_products :: "string \<Rightarrow> product_tag list"
  find_meta_description :: "string \<Rightarrow> (string \<times> string) list option"
  py_float :: "string \<Rightarrow> pyfloat option"
  py_int :: "string \<Rightarrow> int option"
  py_strip :: "string \<Rightarrow> string"
  py_words :: "string \<Rightarrow> string list"
  other_rows :: "nat \<Rightarrow> string \<Rightarrow> row list"
  max_scraped_at :: "nat \<Rightarrow> string \<Rightarrow> string"
  py_rate :: "nat \<Rightarrow> nat \<Rightarrow> pyfloat"

record world =
  tick :: nat
  timeline :: "event list"
  logged :: "(level \<times> msg) list"
  tables :: "string \<Rightarrow> row list"
  files :: "string \<Rightarrow> file_content option"

definition emit :: "level \<Rightarrow> msg \<Rightarrow> world \<Rightarrow> world" where
  "emit l m w = w\<lparr>logged := logged w @ [(l, m)]\<rparr>"

definition sleep :: "nat \<Rightarrow> world \<Rightarrow> world" where
  "sleep n w = w\<lparr>timeline := timeline w @ [Sleep n]\<rparr>"

definition outside :: "world \<Rightarrow> world" where
  "outside w = w\<lparr>tick := Suc (tick w)\<rparr>"

definition request :: "string \<Rightarrow> world \<Rightarrow> world" where
  "request u w = w\<lparr>tick := Suc (tick w), timeline := timeline w @ [Get u]\<rparr>"

subsection \<open>Strings\<close>

text \<open>
  A Python str is modelled as a list of bytes (UTF-8). \<open>py_split\<close> is \<^verbatim>\<open>s.split(c)\<close>
  for a one-character ASCII separator and \<open>py_replace\<close> is \<^verbatim>\<open>s.replace(old, new)\<close>;
  both are the same on the bytes as on the code points.
\<close>

fun py_split :: "char \<Rightarrow> string \<Rightarrow> string list" where
  "py_split c [] = [[]]"
| "py_split c (x # xs) =
     (if x = c then [] # py_split c xs
      else (case py_split c xs of [] \<Rightarrow> [[x]] | y # ys \<Rightarrow> (x # y) # ys))"

function py_replace :: "string \<Rightarrow> string \<Rightarrow> string \<Rightarrow> string" where
  "py_replace old new s =
     (if old = [] then new @ concat (map (\<lambda>c. c # new) s)
      else (case s of
              [] \<Rightarrow> []
            | c # cs \<Rightarrow>
                if take (length old) s = old
                then new @ py_replace old new (drop (length old) s)
                else c # py_replace old new cs))"
  by pat_completeness auto
termination
  by (relation "measure (\<lambda>(old, new, s). length s)") auto

declare py_replace.simps [simp del]

text \<open>\<^verbatim>\<open>s.strip()\<close> and \<^verbatim>\<open>s.split()\<close> on strings of ASCII characters, for the
  environments given below.\<close>

definition is_space :: "char \<Rightarrow> bool" where
  "is_space c = (c \<in> set [CHR '' '', CHR 0x09, CHR 0x0A, CHR 0x0B, CHR 0x0C, CHR 0x0D,
                           CHR 0x1C, CHR 0x1D, CHR 0x1E, CHR 0x1F])"

definition ascii_strip :: "string \<Rightarrow> string" where
  "ascii_strip s = rev (dropWhile is_space (rev (dropWhile is_space s)))"

fun ascii_words_acc :: "string \<Rightarrow> string \<Rightarrow> string list" where
  "ascii_words_acc cur [] = (if cur = [] then [] else [cur])"
| "ascii_words_acc cur (x # xs) =
     (if is_space x
      then (if cur = [] then ascii_words_acc [] xs else cur # ascii_words_acc [] xs)
      else ascii_words_acc (cur @ [x]) xs)"

definition ascii_words :: "string \<Rightarrow> string list" where
  "ascii_words s = ascii_words_acc [] s"

text \<open>Truth value of an Optional[str]: None and the empty string are false.\<close>

fun truthy :: "string option \<Rightarrow> bool" where
  "truthy None = False"
| "truthy (Some s) = (s \<noteq> [])"

subsection \<open>WebScraper.fetch_page\<close>

text \<open>
  The loop \<^verbatim>\<open>for attempt in range(max_retries)\<close>, from the attempt given. A response is
  returned at once; a RequestException is logged and followed by a sleep of
  \<open>2 ^ attempt\<close> and the next attempt, or by None when \<open>attempt\<close> is the last; any other
  exception leaves the function. When the range is empty the function falls off its end
  and returns None.
\<close>

function fetch_attempts :: "env \<Rightarrow> string \<Rightarrow> nat \<Rightarrow> world \<Rightarrow> (exn + string option) \<times> world" where
  "fetch_attempts env url attempt w =
     (if int attempt < max_retries env then
        (case net env (tick w) url of
           Inr text \<Rightarrow> (Inr (Some text), emit INFO (Fetched url) (request url w))
         | Inl e \<Rightarrow>
             if class_of e = RequestException then
               (if int attempt < max_retries env - 1
                then fetch_attempts env url (Suc attempt)
                       (sleep (2 ^ attempt)
                          (emit WARNING (AttemptFailed (attempt + 1) url e) (request url w)))
                else (Inr None,
                      emit ERROR (FetchGaveUp url (max_retries env))
                        (emit WARNING (AttemptFailed (attempt + 1) url e) (request url w))))
             else (Inl e, request url w))
      else (Inr None, w))"
  by pat_completeness auto
termination
  by (relation "measure (\<lambda>(env, url, attempt, w). nat (max_retries env - int attempt))") auto

declare fetch_attempts.simps [simp del]

definition fetch_page :: "env \<Rightarrow> string \<Rightarrow> world \<Rightarrow> (exn + string option) \<times> world" where
  "fetch_page env url w = fetch_attempts env url 0 w"

subsection \<open>The book extractor\<close>

definition quoted :: "string \<Rightarrow> string" where
  "quoted s = CHR 0x27 # s @ [CHR 0x27]"

definition no_attribute :: "string \<Rightarrow> exn" where
  "no_attribute a =
     Exn AttributeError (quoted ''NoneType'' @ '' object has no attribute '' @ quoted a)"

definition not_subscriptable :: exn where
  "not_subscriptable = Exn TypeError (quoted ''NoneType'' @ '' object is not subscriptable'')"

text \<open>\<^verbatim>\<open>book.h3.a[key]\<close>: AttributeError without an h3, TypeError without an anchor in it,
  KeyError without the attribute.\<close>

definition h3_a_attr :: "book_tag \<Rightarrow> string \<Rightarrow> exn + string" where
  "h3_a_attr book key =
     (case bt_h3 book of
        None \<Rightarrow> Inl (no_attribute ''a'')
      | Some None \<Rightarrow> Inl not_subscriptable
      | Some (Some a) \<Rightarrow>
          (case map_of (a_attrs a) key of
             None \<Rightarrow> Inl (Exn KeyError (quoted key))
           | Some v \<Rightarrow> Inr v))"

text \<open>The pound sign, U+00A3, in UTF-8.\<close>

definition pound :: string where
  "pound = [CHR 0xC2, CHR 0xA3]"

definition to_float :: "env \<Rightarrow> string \<Rightarrow> exn + pyfloat" where
  "to_float env s =
     (case py_float env s of
        None \<Rightarrow> Inl (Exn ValueError (''could not convert string to float: '' @ quoted s))
      | Some x \<Rightarrow> Inr x)"

definition to_int :: "env \<Rightarrow> string \<Rightarrow> exn + int" where
  "to_int env s =
     (case py_int env s of
        None \<Rightarrow> Inl (Exn ValueError (''invalid literal for int() with base 10: '' @ quoted s))
      | Some n \<Rightarrow> Inr n)"

definition book_price :: "env \<Rightarrow> book_tag \<Rightarrow> exn + pyfloat" where
  "book_price env book =
     (case bt_price book of
        None \<Rightarrow> Inl (no_attribute ''text'')
      | Some t \<Rightarrow> to_float env (py_replace pound [] t))"

definition book_rating :: "book_tag \<Rightarrow> exn + string" where
  "book_rating book =
     (case bt_p_class book of
        None \<Rightarrow> Inl not_subscriptable
      | Some None \<Rightarrow> Inl (Exn KeyError (quoted ''class''))
      | Some (Some cs) \<Rightarrow>
          if 2 \<le> length cs then Inr (cs ! 1)
          else Inl (Exn IndexError ''list index out of range''))"

definition book_availability :: "env \<Rightarrow> book_tag \<Rightarrow> exn + string" where
  "book_availability env book =
     (case bt_availability book of
        None \<Rightarrow> Inl (no_attribute ''text'')
      | Some t \<Rightarrow> Inr (py_strip env t))"

definition book_category :: "string \<Rightarrow> string" where
  "book_category url =
     (let parts = py_split CHR ''/'' url
      in if 2 \<le> length parts then parts ! (length parts - 2) else ''unknown'')"

text \<open>
  The dict display of \<^verbatim>\<open>book_data\<close> up to the description, its values evaluated in the
  order of the source; the first exception ends the evaluation. The second component is
  \<^verbatim>\<open>book.h3.a['href']\<close>, the argument of the description lookup.
\<close>

definition book_fields :: "env \<Rightarrow> string \<Rightarrow> book_tag \<Rightarrow> exn + (row \<times> string)" where
  "book_fields env url book =
     (case h3_a_attr book ''title'' of Inl e \<Rightarrow> Inl e | Inr title \<Rightarrow>
      case book_price env book of Inl e \<Rightarrow> Inl e | Inr price \<Rightarrow>
      case book_rating book of Inl e \<Rightarrow> Inl e | Inr rating \<Rightarrow>
      case book_availability env book of Inl e \<Rightarrow> Inl e | Inr availability \<Rightarrow>
      case h3_a_attr book ''href'' of Inl e \<Rightarrow> Inl e | Inr href \<Rightarrow>
        Inr ([(''title'', S title),
              (''price'', F price),
              (''rating'', S rating),
              (''availability'', S availability),
              (''category'', S (book_category url)),
              (''url'', S (''http://books.toscrape.com/catalogue/'' @ href))],
             href))"

text \<open>
  \<^verbatim>\<open>_get_book_description\<close>: the second fetch. The bare \<^verbatim>\<open>except\<close> turns every exception
  (of the fetch, or the KeyError of a meta element without content) into the empty string.
\<close>

definition get_book_description :: "env \<Rightarrow> string \<Rightarrow> world \<Rightarrow> string \<times> world" where
  "get_book_description env book_path w =
     (case fetch_page env
             (''http://books.toscrape.com/catalogue/'' @ py_replace ''../../../'' [] book_path) w of
        (Inl e, w') \<Rightarrow> ([], w')
      | (Inr html, w') \<Rightarrow>
          if truthy html then
            (case find_meta_description env (the html) of
               None \<Rightarrow> ([], w')
             | Some attrs \<Rightarrow>
                 (case map_of attrs ''content'' of
                    None \<Rightarrow> ([], w')
                  | Some c \<Rightarrow> (c, w')))
          else ([], w'))"

text \<open>The body of \<^verbatim>\<open>for book in books\<close>: a record, or the logged exception and no record.\<close>

definition parse_book :: "env \<Rightarrow> string \<Rightarrow> book_tag \<Rightarrow> world \<Rightarrow> row option \<times> world" where
  "parse_book env url book w =
     (case book_fields env url book of
        Inl e \<Rightarrow> (None, emit ERROR (ParseError ''book'' e) w)
      | Inr (cols, href) \<Rightarrow>
          (case get_book_description env href w of
             (d, w') \<Rightarrow> (Some (cols @ [(''description'', S d)]), w')))"

fun books_loop :: "env \<Rightarrow> string \<Rightarrow> book_tag list \<Rightarrow> row list \<Rightarrow> world \<Rightarrow> row list \<times> world" where
  "books_loop env url [] all_books w = (all_books, w)"
| "books_loop env url (book # books) all_books w =
     (case parse_book env url book w of
        (None, w') \<Rightarrow> books_loop env url books all_books w'
      | (Some book_data, w') \<Rightarrow> books_loop env url books (all_books @ [book_data]) w')"

text \<open>\<^verbatim>\<open>for url in urls\<close> of \<^verbatim>\<open>scrape_books\<close>, with the list accumulated so far.\<close>

fun scrape_books_loop ::
  "env \<Rightarrow> string list \<Rightarrow> row list \<Rightarrow> world \<Rightarrow> (exn + row list) \<times> world" where
  "scrape_books_loop env [] all_books w = (Inr all_books, w)"
| "scrape_books_loop env (url # urls) all_books w =
     (case fetch_page env url (emit INFO (ScrapingFrom ''books'' url) w) of
        (Inl e, w1) \<Rightarrow> (Inl e, w1)
      | (Inr html_content, w1) \<Rightarrow>
          if \<not> truthy html_content then scrape_books_loop env urls all_books w1
          else
            (case books_loop env url (find_all_books env (the html_content)) all_books w1 of
               (all_books', w2) \<Rightarrow>
                 scrape_books_loop env urls all_books'
                   (sleep (delay_between_requests env) w2)))"

definition scrape_books :: "env \<Rightarrow> string list \<Rightarrow> world \<Rightarrow> (exn + row list) \<times> world" where
  "scrape_books env urls w = scrape_books_loop env urls [] w"

subsection \<open>The product extractor\<close>

text \<open>\<^verbatim>\<open>_extract_category\<close>; the handler's \<open>unknown\<close> is the answer to an empty split.\<close>

definition extract_category :: "string \<Rightarrow> string" where
  "extract_category url =
     (if CHR ''/'' \<in> set url
      then (case rev (py_split CHR ''/'' url) of [] \<Rightarrow> ''unknown'' | x # xs \<Rightarrow> x)
      else ''all'')"

definition product_price :: "env \<Rightarrow> product_tag \<Rightarrow> exn + pyfloat" where
  "product_price env product =
     (case pt_price product of
        None \<Rightarrow> Inr (Num 0)
      | Some t \<Rightarrow> to_float env (py_replace ''$'' [] t))"

definition product_rating :: "env \<Rightarrow> product_tag \<Rightarrow> exn + pyfloat" where
  "product_rating env product =
     (case pt_rating product of
        None \<Rightarrow> Inr (Num 0)
      | Some v \<Rightarrow> to_float env v)"

definition product_reviews :: "env \<Rightarrow> product_tag \<Rightarrow> exn + int" where
  "product_reviews env product =
     (case pt_reviews product of
        None \<Rightarrow> Inr 0
      | Some t \<Rightarrow>
          (case py_words env t of
             [] \<Rightarrow> Inl (Exn IndexError ''list index out of range'')
           | x # xs \<Rightarrow> to_int env x))"

definition product_url :: "string \<Rightarrow> product_tag \<Rightarrow> exn + string" where
  "product_url url product =
     (case pt_name product of
        None \<Rightarrow> Inr url
      | Some a \<Rightarrow>
          (case map_of (a_attrs a) ''href'' of
             None \<Rightarrow> Inl (Exn KeyError (quoted ''href''))
           | Some h \<Rightarrow> Inr (''https://webscraper.io'' @ h)))"

text \<open>The try block of \<^verbatim>\<open>for product in products\<close>, in the order of the source.\<close>

definition product_data :: "env \<Rightarrow> string \<Rightarrow> product_tag \<Rightarrow> exn + row" where
  "product_data env url product =
     (let name = (case pt_name product of
                    None \<Rightarrow> ''N/A''
                  | Some a \<Rightarrow> py_strip env (a_text a)) in
      case product_price env product of Inl e \<Rightarrow> Inl e | Inr price \<Rightarrow>
      let description = (case pt_desc product of None \<Rightarrow> [] | Some t \<Rightarrow> py_strip env t) in
      case product_rating env product of Inl e \<Rightarrow> Inl e | Inr rating \<Rightarrow>
      case product_reviews env product of Inl e \<Rightarrow> Inl e | Inr reviews \<Rightarrow>
      case product_url url product of Inl e \<Rightarrow> Inl e | Inr purl \<Rightarrow>
        Inr [(''name'', S name),
             (''price'', F price),
             (''description'', S description),
             (''rating'', F rating),
             (''reviews'', I reviews),
             (''category'', S (extract_category url)),
             (''url'', S purl)])"

fun products_loop ::
  "env \<Rightarrow> string \<Rightarrow> product_tag list \<Rightarrow> row list \<Rightarrow> world \<Rightarrow> row list \<times> world" where
  "products_loop env url [] all_products w = (all_products, w)"
| "products_loop env url (product # products) all_products w =
     (case product_data env url product of
        Inl e \<Rightarrow>
          products_loop env url products all_products (emit ERROR (ParseError ''product'' e) w)
      | Inr d \<Rightarrow> products_loop env url products (all_products @ [d]) w)"

fun scrape_products_loop ::
  "env \<Rightarrow> string list \<Rightarrow> row list \<Rightarrow> world \<Rightarrow> (exn + row list) \<times> world" where
  "scrape_products_loop env [] all_products w = (Inr all_products, w)"
| "scrape_products_loop env (url # urls) all_products w =
     (case fetch_page env url (emit INFO (ScrapingFrom ''products'' url) w) of
        (Inl e, w1) \<Rightarrow> (Inl e, w1)
      | (Inr html_content, w1) \<Rightarrow>
          if \<not> truthy html_content then scrape_products_loop env urls all_products w1
          else
            (case products_loop env url (find_all_products env (the html_content))
                    all_products w1 of
               (all_products', w2) \<Rightarrow>
                 scrape_products_loop env urls all_products'
                   (sleep (delay_between_requests env) w2)))"

definition scrape_products :: "env \<Rightarrow> string list \<Rightarrow> world \<Rightarrow> (exn + row list) \<times> world" where
  "scrape_products env urls w = scrape_products_loop env urls [] w"

subsection \<open>DatabaseManager\<close>

text \<open>
  The three tables hold their rows in insertion order. The columns the store fills in
  itself (id, scraped_at, end_time) and the wall-clock values start_time and
  duration_seconds are left out of the rows; where the program reads scraped_at back
  (the latest scrape of the statistics) the environment answers (\<open>max_scraped_at\<close>).
  One transaction (connect, execute, commit) is one call to the store: it either
  commits every row or raises and commits none.
\<close>

definition append_rows :: "string \<Rightarrow> row list \<Rightarrow> world \<Rightarrow> world" where
  "append_rows t rows w = w\<lparr>tables := (tables w)(t := tables w t @ rows)\<rparr>"

text \<open>\<^verbatim>\<open>_save_data\<close>; for a table name other than books and products nothing is
  executed before the commit.\<close>

definition save_data :: "env \<Rightarrow> row list \<Rightarrow> string \<Rightarrow> world \<Rightarrow> (exn + nat) \<times> world" where
  "save_data env data table_name w =
     (if data = [] then (Inr 0, w)
      else
        (case db env (tick w) (InsertRows table_name) of
           None \<Rightarrow>
             (Inr (length data),
              emit INFO (DbSaved (length data) table_name)
                (if table_name = ''books'' \<or> table_name = ''products''
                 then append_rows table_name data (outside w)
                 else outside w))
         | Some e \<Rightarrow>
             if class_of e = SQLAlchemyError
             then (Inr 0, emit ERROR (DbSaveError table_name e) (outside w))
             else (Inl e, outside w)))"

definition save_books :: "env \<Rightarrow> row list \<Rightarrow> world \<Rightarrow> (exn + nat) \<times> world" where
  "save_books env books_data w = save_data env books_data ''books'' w"

definition save_products :: "env \<Rightarrow> row list \<Rightarrow> world \<Rightarrow> (exn + nat) \<times> world" where
  "save_products env products_data w = save_data env products_data ''products'' w"

definition log_entry :: "string \<Rightarrow> string \<Rightarrow> nat \<Rightarrow> string option \<Rightarrow> row" where
  "log_entry target status records_scraped error_message =
     [(''target'', S target),
      (''status'', S status),
      (''records_scraped'', I (int records_scraped)),
      (''error_message'', (case error_message of None \<Rightarrow> Null | Some m \<Rightarrow> S m))]"

definition log_scraping_run ::
  "env \<Rightarrow> string \<Rightarrow> string \<Rightarrow> nat \<Rightarrow> string option \<Rightarrow> world \<Rightarrow> (exn + unit) \<times> world" where
  "log_scraping_run env target status records_scraped error_message w =
     (case db env (tick w) InsertLog of
        None \<Rightarrow>
          (Inr (),
           emit INFO (RunLogged target status)
             (append_rows ''scraping_logs''
                [log_entry target status records_scraped error_message] (outside w)))
      | Some e \<Rightarrow>
          if class_of e = SQLAlchemyError
          then (Inr (), emit ERROR (RunLogError e) (outside w))
          else (Inl e, outside w))"

definition known_table :: "string \<Rightarrow> bool" where
  "known_table t = (t = ''books'' \<or> t = ''products'' \<or> t = ''scraping_logs'')"

text \<open>\<^verbatim>\<open>export_to_csv\<close>: the query, then the write; any exception of either is logged and
  answered with None. The name goes into the text of the query as it is: for the three
  names of the tables the rows are those of the table, for any other text (another
  spelling of a name, a system table, no table at all) the store answers with an
  exception or with the rows \<open>other_rows\<close>.\<close>

definition export_to_csv ::
  "env \<Rightarrow> string \<Rightarrow> string option \<Rightarrow> world \<Rightarrow> string option \<times> world" where
  "export_to_csv env table_name filename w =
     (case db env (tick w) (SelectAll table_name) of
        Some e \<Rightarrow> (None, emit ERROR (ExportError table_name e) (outside w))
      | None \<Rightarrow>
          (let df = (if known_table table_name then tables w table_name
                     else other_rows env (tick w) table_name);
               fname = (case filename of
                          None \<Rightarrow> ''output/'' @ table_name @ ''.csv''
                        | Some f \<Rightarrow> f);
               w1 = outside w
           in case fs env (tick w1) fname of
                Some e \<Rightarrow> (None, emit ERROR (ExportError table_name e) (outside w1))
              | None \<Rightarrow>
                  (Some fname,
                   emit INFO (Exported (length df) table_name fname)
                     ((outside w1)\<lparr>files := (files w1)(fname \<mapsto> Csv df)\<rparr>))))"

text \<open>\<^verbatim>\<open>get_scraping_stats\<close>: the dict of statistics, or the empty dict after any
  exception. MAX(scraped_at) is NULL on an empty table. With no run logged the rate is
  the int 0; otherwise it is the double \<^verbatim>\<open>round(success / total * 100, 2)\<close>, which the
  environment computes (\<open>py_rate\<close>).\<close>

definition get_scraping_stats :: "env \<Rightarrow> world \<Rightarrow> row \<times> world" where
  "get_scraping_stats env w =
     (case db env (tick w) SelectStats of
        Some e \<Rightarrow> ([], emit ERROR (StatsError e) (outside w))
      | None \<Rightarrow>
          (let total_books = length (tables w ''books'');
               total_products = length (tables w ''products'');
               success = length (filter (\<lambda>r. map_of r ''status'' = Some (S ''success''))
                                   (tables w ''scraping_logs''));
               total = length (tables w ''scraping_logs'')
           in ([(''total_books'', I (int total_books)),
                (''total_products'', I (int total_products)),
                (''last_book_scrape'',
                 if tables w ''books'' = [] then Null
                 else S (max_scraped_at env (tick w) ''books'')),
                (''last_product_scrape'',
                 if tables w ''products'' = [] then Null
                 else S (max_scraped_at env (tick w) ''products'')),
                (''success_rate'',
                 if 0 < total then F (py_rate env success total) else I 0)],
               outside w)))"

subsection \<open>WebScraper: saving, the job, the run\<close>

definition save_to_csv :: "env \<Rightarrow> row list \<Rightarrow> string \<Rightarrow> world \<Rightarrow> world" where
  "save_to_csv env data filename w =
     (if data = [] then emit WARNING (NoData filename) w
      else
        (case fs env (tick w) (''output/'' @ filename) of
           None \<Rightarrow>
             emit INFO (SavedCsv (length data) filename)
               ((outside w)\<lparr>files := (files w)(''output/'' @ filename \<mapsto> Csv data)\<rparr>)
         | Some e \<Rightarrow> emit ERROR (CsvError e) (outside w)))"

text \<open>Lines 192 to 200 of \<^verbatim>\<open>run_scraping_job\<close>, the end of the try block that both targets
  share.\<close>

definition job_logged :: "env \<Rightarrow> string \<Rightarrow> nat \<Rightarrow> world \<Rightarrow> (exn + bool) \<times> world" where
  "job_logged env target records_saved w =
     (case log_scraping_run env target ''success'' records_saved None w of
        (Inl e, w') \<Rightarrow> (Inl e, w')
      | (Inr u, w') \<Rightarrow> (Inr True, emit INFO (JobDone target (int records_saved)) w'))"

text \<open>The try block of \<^verbatim>\<open>run_scraping_job\<close>.\<close>

definition job_try :: "env \<Rightarrow> string \<Rightarrow> world \<Rightarrow> (exn + bool) \<times> world" where
  "job_try env target w =
     (if target = ''books'' then
        (case scrape_books env (books_urls env) (emit INFO (JobStart target) w) of
           (Inl e, w1) \<Rightarrow> (Inl e, w1)
         | (Inr books_data, w1) \<Rightarrow>
             (case save_books env books_data w1 of
                (Inl e, w2) \<Rightarrow> (Inl e, w2)
              | (Inr records_saved, w2) \<Rightarrow>
                  job_logged env target records_saved
                    (snd (export_to_csv env ''books'' (Some ''output/books_latest.csv'')
                            (save_to_csv env books_data ''books.csv'' w2)))))
      else if target = ''products'' then
        (case scrape_products env (products_urls env) (emit INFO (JobStart target) w) of
           (Inl e, w1) \<Rightarrow> (Inl e, w1)
         | (Inr products_data, w1) \<Rightarrow>
             (case save_products env products_data w1 of
                (Inl e, w2) \<Rightarrow> (Inl e, w2)
              | (Inr records_saved, w2) \<Rightarrow>
                  job_logged env target records_saved
                    (snd (export_to_csv env ''products'' (Some ''output/products_latest.csv'')
                            (save_to_csv env products_data ''products.csv'' w2)))))
      else (Inl (Exn ValueError (''Unknown target: '' @ target)),
            emit INFO (JobStart target) w))"

definition run_scraping_job :: "env \<Rightarrow> string \<Rightarrow> world \<Rightarrow> (exn + bool) \<times> world" where
  "run_scraping_job env target w =
     (case job_try env target w of
        (Inr b, w') \<Rightarrow> (Inr b, w')
      | (Inl e, w') \<Rightarrow>
          (case log_scraping_run env target ''failed'' 0 (Some (str_exn e))
                  (emit ERROR (JobFailed target e) w') of
             (Inl e', w'') \<Rightarrow> (Inl e', w'')
           | (Inr u, w'') \<Rightarrow> (Inr False, w'')))"

definition dict_get :: "row \<Rightarrow> string \<Rightarrow> scalar \<Rightarrow> scalar" where
  "dict_get d k dflt = (case map_of d k of None \<Rightarrow> dflt | Some v \<Rightarrow> v)"

definition outcome_text :: "(string \<rightharpoonup> bool) \<Rightarrow> string \<Rightarrow> string" where
  "outcome_text results k = (if results k = Some True then ''SUCCESS'' else ''FAILED'')"

text \<open>The lines of the report that depend on the run.\<close>

definition report_text :: "row \<Rightarrow> (string \<rightharpoonup> bool) \<Rightarrow> row" where
  "report_text stats results =
     [(''Books'', S (outcome_text results ''books'')),
      (''Products'', S (outcome_text results ''products'')),
      (''Total Books'', dict_get stats ''total_books'' (I 0)),
      (''Total Products'', dict_get stats ''total_products'' (I 0)),
      (''Last Book Scrape'', dict_get stats ''last_book_scrape'' (S ''Never'')),
      (''Last Product Scrape'', dict_get stats ''last_product_scrape'' (S ''Never'')),
      (''Overall Success Rate'', dict_get stats ''success_rate'' (I 0))]"

text \<open>\<^verbatim>\<open>_generate_report\<close>: the report is printed (the standard output is not part of
  the state), then written; nothing catches the exception of the write.\<close>

definition generate_report ::
  "env \<Rightarrow> row \<Rightarrow> (string \<rightharpoonup> bool) \<Rightarrow> world \<Rightarrow> (exn + unit) \<times> world" where
  "generate_report env stats results w =
     (case fs env (tick w) ''output/scraping_report.txt'' of
        Some e \<Rightarrow> (Inl e, outside w)
      | None \<Rightarrow>
          (Inr (),
           (outside w)\<lparr>files :=
              (files w)(''output/scraping_report.txt'' \<mapsto> Report (report_text stats results))\<rparr>))"

text \<open>\<^verbatim>\<open>for target in ['books', 'products']\<close>, with the dict filled so far.\<close>

fun run_jobs ::
  "env \<Rightarrow> string list \<Rightarrow> (string \<rightharpoonup> bool) \<Rightarrow> world \<Rightarrow> (exn + (string \<rightharpoonup> bool)) \<times> world" where
  "run_jobs env [] results w = (Inr results, w)"
| "run_jobs env (target # targets) results w =
     (case run_scraping_job env target w of
        (Inl e, w') \<Rightarrow> (Inl e, w')
      | (Inr r, w') \<Rightarrow> run_jobs env targets (results(target \<mapsto> r)) (sleep 2 w'))"

definition run_all_scraping_jobs :: "env \<Rightarrow> world \<Rightarrow> (exn + (string \<rightharpoonup> bool)) \<times> world" where
  "run_all_scraping_jobs env w =
     (case run_jobs env [''books'', ''products''] Map.empty (emit INFO AllStart w) of
        (Inl e, w1) \<Rightarrow> (Inl e, w1)
      | (Inr results, w1) \<Rightarrow>
          (case get_scraping_stats env w1 of
             (stats, w2) \<Rightarrow>
               (case generate_report env stats results w2 of
                  (Inl e, w3) \<Rightarrow> (Inl e, w3)
                | (Inr u, w3) \<Rightarrow> (Inr results, emit INFO AllDone w3))))"

section \<open>Notions used in the properties\<close>

text \<open>The request made at tick \<open>t\<close> for \<open>url\<close> ends in a RequestException.\<close>

definition request_failed :: "env \<Rightarrow> nat \<Rightarrow> string \<Rightarrow> bool" where
  "request_failed env t url =
     (case net env t url of Inl e \<Rightarrow> class_of e = RequestException | Inr body \<Rightarrow> False)"

text \<open>The attempts \<open>a + 1\<close> to \<open>k\<close> (counted from 1), each followed by its wait.\<close>

definition backoff :: "string \<Rightarrow> nat \<Rightarrow> nat \<Rightarrow> event list" where
  "backoff url a k = concat (map (\<lambda>j. [Get url, Sleep (2 ^ j)]) [a..<k])"

text \<open>The targets of the jobs started, as the logger reports them, and the parse errors
  logged.\<close>

definition job_starts :: "(level \<times> msg) list \<Rightarrow> string list" where
  "job_starts ms = List.map_filter (\<lambda>(l, m). case m of JobStart t \<Rightarrow> Some t | _ \<Rightarrow> None) ms"

definition parse_errors :: "(level \<times> msg) list \<Rightarrow> (level \<times> msg) list" where
  "parse_errors ms = filter (\<lambda>(l, m). case m of ParseError t e \<Rightarrow> True | _ \<Rightarrow> False) ms"

text \<open>A step that leaves the tables and the list of jobs started as they were.\<close>

definition quiet :: "world \<Rightarrow> world \<Rightarrow> bool" where
  "quiet w w' = (tables w' = tables w \<and> job_starts (logged w') = job_starts (logged w))"

text \<open>The records of the items of a page that parse, and the errors logged for the
  others, in the order of the page. For a book, the columns before the description.\<close>

definition parsed_products :: "env \<Rightarrow> string \<Rightarrow> product_tag list \<Rightarrow> row list" where
  "parsed_products env url items =
     List.map_filter (\<lambda>p. case product_data env url p of Inr d \<Rightarrow> Some d | Inl e \<Rightarrow> None) items"

definition product_errors :: "env \<Rightarrow> string \<Rightarrow> product_tag list \<Rightarrow> (level \<times> msg) list" where
  "product_errors env url items =
     List.map_filter
       (\<lambda>p. case product_data env url p of
               Inl e \<Rightarrow> Some (ERROR, ParseError ''product'' e)
             | Inr d \<Rightarrow> None) items"

definition parsed_books :: "env \<Rightarrow> string \<Rightarrow> book_tag list \<Rightarrow> row list" where
  "parsed_books env url items =
     List.map_filter
       (\<lambda>b. case book_fields env url b of Inr (cols, href) \<Rightarrow> Some cols | Inl e \<Rightarrow> None) items"

definition book_errors :: "env \<Rightarrow> string \<Rightarrow> book_tag list \<Rightarrow> (level \<times> msg) list" where
  "book_errors env url items =
     List.map_filter
       (\<lambda>b. case book_fields env url b of
               Inl e \<Rightarrow> Some (ERROR, ParseError ''book'' e)
             | Inr d \<Rightarrow> None) items"

text \<open>The record of a book: its columns and then the description.\<close>

definition with_description :: "row \<Rightarrow> row \<Rightarrow> bool" where
  "with_description cols r = (\<exists>d. r = cols @ [(''description'', S d)])"

text \<open>The scraper of a known target on its configured URLs, and the two exports that
  follow the save in \<^verbatim>\<open>run_scraping_job\<close>.\<close>

definition scrape_target :: "env \<Rightarrow> string \<Rightarrow> world \<Rightarrow> (exn + row list) \<times> world" where
  "scrape_target env target w =
     (if target = ''books'' then scrape_books env (books_urls env) w
      else scrape_products env (products_urls env) w)"

definition export_latest :: "env \<Rightarrow> string \<Rightarrow> row list \<Rightarrow> world \<Rightarrow> world" where
  "export_latest env target data w =
     snd (export_to_csv env target (Some (''output/'' @ target @ ''_latest.csv''))
            (save_to_csv env data (target @ ''.csv'') w))"

text \<open>The number of rows of an exported file.\<close>

definition csv_rows :: "file_content option \<Rightarrow> nat option" where
  "csv_rows f = (case f of Some (Csv rows) \<Rightarrow> Some (length rows) | _ \<Rightarrow> None)"

section \<open>Concrete environments\<close>

definition world0 :: world where
  "world0 = \<lparr>tick = 0, timeline = [], logged = [], tables = (\<lambda>t. []), files = Map.empty\<rparr>"

text \<open>The configuration of \<^verbatim>\<open>config.py\<close>, every request timing out, a store and a file
  system that accept everything.\<close>

definition env_down :: env where
  "env_down =
     \<lparr>max_retries = 3,
      delay_between_requests = 1,
      books_urls = [''https://pdfdrive.com.co/'', ''https://pdfdrive.com.co/''],
      products_urls = [''https://webscraper.io/test-sites/e-commerce/allinone''],
      net = (\<lambda>n u. Inl (Exn RequestException ''timed out'')),
      db = (\<lambda>n q. None),
      fs = (\<lambda>n p. None),
      find_all_books = (\<lambda>h. []),
      find_all_products = (\<lambda>h. []),
      find_meta_description = (\<lambda>h. None),
      py_float = (\<lambda>s. None),
      py_int = (\<lambda>s. None),
      py_strip = ascii_strip,
      py_words = ascii_words,
      other_rows = (\<lambda>n t. []),
      max_scraped_at = (\<lambda>n t. ''2024-01-01 02:00:00.000000''),
      py_rate = (\<lambda>s t. Num (real_of_int (round (real (10000 * s) / real t)) / 100))\<rparr>"

text \<open>Three blocks of a product page: a complete one, one whose price is not a number,
  one with none of the five elements.\<close>

definition product_full :: product_tag where
  "product_full =
     \<lparr>pt_name = Some \<lparr>a_attrs = [(''href'', ''/test-sites/e-commerce/allinone/product/1'')],
                       a_text = '' Asus VivoBook ''\<rparr>,
      pt_price = Some ''$295.99'',
      pt_desc = Some ''Asus VivoBook X441NA'',
      pt_rating = Some ''3'',
      pt_reviews = Some ''14 reviews''\<rparr>"

definition product_bad_price :: product_tag where
  "product_bad_price = product_full\<lparr>pt_price := Some ''$n/a''\<rparr>"

definition product_bare :: product_tag where
  "product_bare =
     \<lparr>pt_name = None, pt_price = None, pt_desc = None, pt_rating = None, pt_reviews = None\<rparr>"

text \<open>Two blocks of a book page: a complete one, and the same without its price
  element.\<close>

definition book_full :: book_tag where
  "book_full =
     \<lparr>bt_h3 = Some (Some \<lparr>a_attrs = [(''href'', ''a-light-in-the-attic_1000/index.html''),
                                     (''title'', ''A Light in the Attic'')],
                          a_text = ''A Light in the ...''\<rparr>),
      bt_price = Some (pound @ ''51.77''),
      bt_p_class = Some (Some [''star-rating'', ''Three'']),
      bt_availability = Some '' In stock ''\<rparr>"

definition book_no_price :: book_tag where
  "book_no_price = book_full\<lparr>bt_price := None\<rparr>"

text \<open>A site that answers every request with the page \<open>page\<close>, which holds the three
  product blocks and the two book blocks; a store and a file system that accept
  everything.\<close>

definition env_up :: env where
  "env_up =
     \<lparr>max_retries = 3,
      delay_between_requests = 1,
      books_urls = [''https://pdfdrive.com.co/'', ''https://pdfdrive.com.co/''],
      products_urls = [''https://webscraper.io/test-sites/e-commerce/allinone''],
      net = (\<lambda>n u. Inr ''page''),
      db = (\<lambda>n q. None),
      fs = (\<lambda>n p. None),
      find_all_books = (\<lambda>h. [book_full, book_no_price]),
      find_all_products = (\<lambda>h. [product_full, product_bad_price, product_bare]),
      find_meta_description = (\<lambda>h. Some [(''name'', ''description''), (''content'', ''Poems'')]),
      py_float = (\<lambda>s. if s = ''295.99'' then Some (Num (29599 / 100))
                       else if s = ''51.77'' then Some (Num (5177 / 100))
                       else if s = ''3'' then Some (Num 3) else None),
      py_int = (\<lambda>s. if s = ''14'' then Some 14 else None),
      py_strip = ascii_strip,
      py_words = ascii_words,
      other_rows = (\<lambda>n t. []),
      max_scraped_at = (\<lambda>n t. ''2024-01-01 02:00:00.000000''),
      py_rate = (\<lambda>s t. Num (real_of_int (round (real (10000 * s) / real t)) / 100))\<rparr>"

text \<open>The same site timing out on the first request and answering every later one with
  an empty body.\<close>

definition env_retry_blank :: env where
  "env_retry_blank =
     env_up\<lparr>net := (\<lambda>n u. if n = 0 then Inl (Exn RequestException ''timed out'') else Inr [])\<rparr>"

text \<open>A politeness delay of 5 and a site where one address times out.\<close>

definition env_mixed :: env where
  "env_mixed =
     env_up\<lparr>delay_between_requests := 5,
            net := (\<lambda>n u. if u = ''https://a.example/''
                          then Inl (Exn RequestException ''timed out'') else Inr ''page'')\<rparr>"


text \<open>The unreachable site, with a store that rejects every append to the log.\<close>

definition env_log_rejected :: env where
  "env_log_rejected =
     env_down\<lparr>db := (\<lambda>n q. if q = InsertLog
                             then Some (Exn SQLAlchemyError ''database is locked'')
                             else None)\<rparr>"


text \<open>A record of the books table, and a store that holds it from an earlier run.\<close>

definition emma :: row where
  "emma =
     [(''title'', S ''Emma''),
      (''price'', F (Num 12)),
      (''rating'', S ''Four''),
      (''availability'', S ''In stock''),
      (''category'', S ''books_1''),
      (''url'', S ''http://books.toscrape.com/catalogue/emma_17/index.html''),
      (''description'', S [])]"

definition world_stocked :: world where
  "world_stocked = world0\<lparr>tables := (\<lambda>t. if t = ''books'' then [emma] else [])\<rparr>"

text \<open>The unreachable site, with a report file that cannot be written.\<close>

definition env_report_denied :: env where
  "env_report_denied =
     env_down\<lparr>fs := (\<lambda>n p. if p = ''output/scraping_report.txt''
                             then Some (Exn OSError ''Permission denied'') else None)\<rparr>"

text \<open>The unreachable site, with statistics that cannot be computed.\<close>

definition env_stats_broken :: env where
  "env_stats_broken =
     env_down\<lparr>db := (\<lambda>n q. if q = SelectStats
                             then Some (Exn OtherError ''unable to open database file'')
                             else None)\<rparr>"

section \<open>The fetcher\<close>

lemma backoff_step:
  "a < k \<Longrightarrow> backoff url a k = [Get url, Sleep (2 ^ a)] @ backoff url (Suc a) k"
  by (simp add: backoff_def upt_conv_Cons)

lemma backoff_empty [simp]: "backoff url a a = []"
  by (simp add: backoff_def)

text \<open>
  The loop from attempt \<open>a\<close>: it ends at some attempt \<open>k\<close> below the maximum; every attempt
  before \<open>k\<close> failed and was followed by its wait; the attempt \<open>k\<close> is the last event; its
  outcome decides the result, and when it failed it was the last attempt allowed.
\<close>

lemma fetch_attempts_trace:
  "int a < max_retries env \<Longrightarrow>
   \<exists>k. a \<le> k \<and> int k < max_retries env \<and>
       (\<forall>j. a \<le> j \<and> j < k \<longrightarrow> request_failed env (tick w + (j - a)) url) \<and>
       timeline (snd (fetch_attempts env url a w)) = timeline w @ backoff url a k @ [Get url] \<and>
       tick (snd (fetch_attempts env url a w)) = tick w + (k - a) + 1 \<and>
       fst (fetch_attempts env url a w) =
         (case net env (tick w + (k - a)) url of
            Inr body \<Rightarrow> Inr (Some body)
          | Inl e \<Rightarrow> if class_of e = RequestException then Inr None else Inl e) \<and>
       (request_failed env (tick w + (k - a)) url \<longrightarrow> int k = max_retries env - 1)"
proof (induction env url a w rule: fetch_attempts.induct)
  case (1 env url attempt w)
  show ?case
  proof (cases "net env (tick w) url")
    case (Inr body)
    then show ?thesis using "1.prems"
      by (intro exI[of _ attempt])
         (simp add: fetch_attempts.simps[of env url attempt w] request_failed_def emit_def
            request_def)
  next
    case (Inl e)
    show ?thesis
    proof (cases "class_of e = RequestException")
      case False
      then show ?thesis using "1.prems" Inl
        by (intro exI[of _ attempt])
         (simp add: fetch_attempts.simps[of env url attempt w] request_failed_def emit_def
            request_def)
    next
      case True
      show ?thesis
      proof (cases "int attempt < max_retries env - 1")
        case False
        then show ?thesis using "1.prems" Inl True
          by (intro exI[of _ attempt])
         (simp add: fetch_attempts.simps[of env url attempt w] request_failed_def emit_def
            request_def)
      next
        case more: True
        let ?w' = "sleep (2 ^ attempt)
                     (emit WARNING (AttemptFailed (attempt + 1) url e) (request url w))"
        have step: "fetch_attempts env url attempt w = fetch_attempts env url (Suc attempt) ?w'"
          using "1.prems" Inl True more by (subst fetch_attempts.simps) simp
        have "int (Suc attempt) < max_retries env" using more by simp
        from "1.IH"[OF "1.prems" Inl True more this]
        obtain k where k: "Suc attempt \<le> k" "int k < max_retries env"
          "\<forall>j. Suc attempt \<le> j \<and> j < k \<longrightarrow>
               request_failed env (tick ?w' + (j - Suc attempt)) url"
          "timeline (snd (fetch_attempts env url (Suc attempt) ?w')) =
             timeline ?w' @ backoff url (Suc attempt) k @ [Get url]"
          "tick (snd (fetch_attempts env url (Suc attempt) ?w')) =
             tick ?w' + (k - Suc attempt) + 1"
          "fst (fetch_attempts env url (Suc attempt) ?w') =
             (case net env (tick ?w' + (k - Suc attempt)) url of
                Inr body \<Rightarrow> Inr (Some body)
              | Inl e \<Rightarrow> if class_of e = RequestException then Inr None else Inl e)"
          "request_failed env (tick ?w' + (k - Suc attempt)) url \<longrightarrow>
             int k = max_retries env - 1"
          by blast
        have tw: "tick ?w' = Suc (tick w)"
          "timeline ?w' = timeline w @ [Get url, Sleep (2 ^ attempt)]"
          by (simp_all add: sleep_def emit_def request_def)
        have idx: "\<And>j. Suc attempt \<le> j \<Longrightarrow>
                     tick ?w' + (j - Suc attempt) = tick w + (j - attempt)"
          using tw by simp
        have first: "request_failed env (tick w) url"
          using Inl True by (simp add: request_failed_def)
        have all: "\<forall>j. attempt \<le> j \<and> j < k \<longrightarrow>
                     request_failed env (tick w + (j - attempt)) url"
        proof (intro allI impI)
          fix j assume j: "attempt \<le> j \<and> j < k"
          show "request_failed env (tick w + (j - attempt)) url"
          proof (cases "j = attempt")
            case True then show ?thesis using first by simp
          next
            case False
            then have "Suc attempt \<le> j" using j by simp
            then show ?thesis using k(3) j idx by metis
          qed
        qed
        show ?thesis
          apply (intro exI[of _ k])
          unfolding step
          using k all tw idx[of k] backoff_step[of attempt k url]
          by simp
      qed
    qed
  qed
qed

text \<open>
  C2. With a maximum of \<open>n \<ge> 1\<close> attempts, \<open>fetch_page\<close> makes \<open>k + 1 \<le> n\<close> requests: the
  first \<open>k\<close> end in a RequestException and the attempt number \<open>j + 1\<close> among them is
  followed by a wait of \<open>2 ^ j\<close>; the last request is the last event, so nothing is
  waited after it. A response to it is returned as the page content. When it fails too
  it is attempt number \<open>n\<close>, and the result is None.
\<close>

theorem fetch_page_backoff:
  assumes "1 \<le> max_retries env"
  shows "\<exists>k. int k + 1 \<le> max_retries env \<and>
           (\<forall>j<k. request_failed env (tick w + j) url) \<and>
           timeline (snd (fetch_page env url w)) =
             timeline w @ backoff url 0 k @ [Get url] \<and>
           tick (snd (fetch_page env url w)) = tick w + k + 1 \<and>
           (\<forall>body. net env (tick w + k) url = Inr body \<longrightarrow>
                   fst (fetch_page env url w) = Inr (Some body)) \<and>
           (request_failed env (tick w + k) url \<longrightarrow>
              int k + 1 = max_retries env \<and> fst (fetch_page env url w) = Inr None)"
proof -
  from assms have "int 0 < max_retries env" by simp
  from fetch_attempts_trace[OF this, of w url]
  obtain k where k: "int k < max_retries env"
    "\<forall>j. 0 \<le> j \<and> j < k \<longrightarrow> request_failed env (tick w + (j - 0)) url"
    "timeline (snd (fetch_attempts env url 0 w)) = timeline w @ backoff url 0 k @ [Get url]"
    "tick (snd (fetch_attempts env url 0 w)) = tick w + (k - 0) + 1"
    "fst (fetch_attempts env url 0 w) =
       (case net env (tick w + (k - 0)) url of
          Inr body \<Rightarrow> Inr (Some body)
        | Inl e \<Rightarrow> if class_of e = RequestException then Inr None else Inl e)"
    "request_failed env (tick w + (k - 0)) url \<longrightarrow> int k = max_retries env - 1"
    by blast
  show ?thesis
    apply (intro exI[of _ k])
    using k
    by (auto simp: fetch_page_def request_failed_def split: sum.splits)
qed

theorem fetch_page_backoff_witness:
  "1 \<le> max_retries env_down \<and>
   fst (fetch_page env_down ''u'' world0) = Inr None \<and>
   timeline (snd (fetch_page env_down ''u'' world0)) =
     [Get ''u'', Sleep 1, Get ''u'', Sleep 2, Get ''u'']"
proof -
  have h: "1 \<le> max_retries env_down"
    by (simp add: env_down_def)
  have f: "\<And>t. request_failed env_down t ''u''"
    by (simp add: request_failed_def env_down_def)
  from fetch_page_backoff[OF h, of world0 "''u''"] f
  obtain k where k: "int k + 1 = max_retries env_down"
    "fst (fetch_page env_down ''u'' world0) = Inr None"
    "timeline (snd (fetch_page env_down ''u'' world0)) =
       timeline world0 @ backoff ''u'' 0 k @ [Get ''u'']"
    by blast
  from k(1) have "k = Suc (Suc 0)"
    by (simp add: env_down_def)
  with k(2,3) h show ?thesis
    by (simp add: backoff_def world0_def)
qed

section \<open>What the scraping leaves untouched\<close>

lemmas upd = emit_def sleep_def request_def outside_def append_rows_def

lemma job_starts_append [simp]: "job_starts (xs @ ys) = job_starts xs @ job_starts ys"
  by (simp add: job_starts_def map_filter_def)

lemma job_starts_Nil [simp]: "job_starts [] = []"
  by (simp add: job_starts_def map_filter_def)

lemma job_starts_Cons [simp]:
  "job_starts ((l, m) # ms) = (case m of JobStart t \<Rightarrow> [t] | _ \<Rightarrow> []) @ job_starts ms"
  by (cases m) (simp_all add: job_starts_def map_filter_def)

lemma parse_errors_append [simp]: "parse_errors (xs @ ys) = parse_errors xs @ parse_errors ys"
  by (simp add: parse_errors_def)

lemma parse_errors_Nil [simp]: "parse_errors [] = []"
  by (simp add: parse_errors_def)

lemma parse_errors_Cons [simp]:
  "parse_errors ((l, m) # ms) =
     (case m of ParseError t e \<Rightarrow> [(l, m)] | _ \<Rightarrow> []) @ parse_errors ms"
  by (cases m) (simp_all add: parse_errors_def)

lemma quiet_refl [simp]: "quiet w w"
  by (simp add: quiet_def)

lemma quiet_trans: "quiet w w1 \<Longrightarrow> quiet w1 w2 \<Longrightarrow> quiet w w2"
  by (simp add: quiet_def)

lemma fetch_attempts_quiet: "quiet w (snd (fetch_attempts env url a w))"
proof (induction env url a w rule: fetch_attempts.induct)
  case (1 env url attempt w)
  show ?case
    apply (subst fetch_attempts.simps)
    using 1 by (auto simp: upd quiet_def split: sum.splits)
qed

lemma fetch_attempts_parse_errors:
  "parse_errors (logged (snd (fetch_attempts env url a w))) = parse_errors (logged w)"
proof (induction env url a w rule: fetch_attempts.induct)
  case (1 env url attempt w)
  show ?case
    apply (subst fetch_attempts.simps)
    using 1 by (auto simp: upd split: sum.splits)
qed

lemma fetch_page_quiet: "quiet w (snd (fetch_page env url w))"
  by (simp add: fetch_page_def fetch_attempts_quiet)

lemma fetch_page_parse_errors:
  "parse_errors (logged (snd (fetch_page env url w))) = parse_errors (logged w)"
  by (simp add: fetch_page_def fetch_attempts_parse_errors)

lemma get_book_description_snd:
  "snd (get_book_description env p w) =
   snd (fetch_page env (''http://books.toscrape.com/catalogue/'' @ py_replace ''../../../'' [] p) w)"
  by (simp add: get_book_description_def split: prod.splits sum.splits option.splits)

lemma get_book_description_quiet: "quiet w (snd (get_book_description env p w))"
  by (simp only: get_book_description_snd fetch_page_quiet)


lemma parse_book_quiet: "quiet w (snd (parse_book env url book w))"
proof (cases "book_fields env url book")
  case (Inl e)
  then show ?thesis by (simp add: parse_book_def quiet_def upd)
next
  case (Inr p)
  obtain cols href where p: "p = (cols, href)" by (cases p)
  obtain d w' where g: "get_book_description env href w = (d, w')"
    by (cases "get_book_description env href w")
  have "quiet w w'" using get_book_description_quiet[of w env href] g by simp
  then show ?thesis using Inr p g by (simp add: parse_book_def)
qed

lemma books_loop_quiet: "quiet w (snd (books_loop env url books acc w))"
proof (induction books arbitrary: acc w)
  case Nil
  show ?case by simp
next
  case (Cons book books)
  obtain r w1 where p: "parse_book env url book w = (r, w1)"
    by (cases "parse_book env url book w")
  have "quiet w w1" using parse_book_quiet[of w env url book] p by simp
  then show ?case using p Cons.IH
    by (cases r) (auto intro: quiet_trans)
qed

lemma products_loop_quiet: "quiet w (snd (products_loop env url products acc w))"
proof (induction products arbitrary: acc w)
  case Nil
  show ?case by simp
next
  case (Cons product products)
  show ?case
  proof (cases "product_data env url product")
    case (Inl e)
    have "quiet w (emit ERROR (ParseError ''product'' e) w)"
      by (simp add: quiet_def upd)
    then show ?thesis using Inl Cons.IH by (auto intro: quiet_trans)
  next
    case (Inr d)
    then show ?thesis using Cons.IH by simp
  qed
qed

lemma scrape_books_loop_quiet: "quiet w (snd (scrape_books_loop env urls acc w))"
proof (induction urls arbitrary: acc w)
  case Nil
  show ?case by simp
next
  case (Cons url urls)
  let ?w0 = "emit INFO (ScrapingFrom ''books'' url) w"
  obtain r w1 where f: "fetch_page env url ?w0 = (r, w1)"
    by (cases "fetch_page env url ?w0")
  have q1: "quiet w w1"
    using fetch_page_quiet[of ?w0 env url] f by (simp add: quiet_def upd)
  show ?case
  proof (cases r)
    case (Inl e)
    then show ?thesis using f q1 by simp
  next
    case (Inr html)
    show ?thesis
    proof (cases "truthy html")
      case False
      then show ?thesis using f Inr q1 Cons.IH by (auto intro: quiet_trans)
    next
      case True
      obtain acc' w2 where b: "books_loop env url (find_all_books env (the html)) acc w1 = (acc', w2)"
        by (cases "books_loop env url (find_all_books env (the html)) acc w1")
      have "quiet w1 w2" using books_loop_quiet[of w1 env url "find_all_books env (the html)" acc] b by simp
      then have "quiet w (sleep (delay_between_requests env) w2)"
        using q1 by (simp add: quiet_def upd)
      then show ?thesis
        using f Inr True b Cons.IH
        by (auto intro: quiet_trans)
    qed
  qed
qed

lemma scrape_products_loop_quiet: "quiet w (snd (scrape_products_loop env urls acc w))"
proof (induction urls arbitrary: acc w)
  case Nil
  show ?case by simp
next
  case (Cons url urls)
  let ?w0 = "emit INFO (ScrapingFrom ''products'' url) w"
  obtain r w1 where f: "fetch_page env url ?w0 = (r, w1)"
    by (cases "fetch_page env url ?w0")
  have q1: "quiet w w1"
    using fetch_page_quiet[of ?w0 env url] f by (simp add: quiet_def upd)
  show ?case
  proof (cases r)
    case (Inl e)
    then show ?thesis using f q1 by simp
  next
    case (Inr html)
    show ?thesis
    proof (cases "truthy html")
      case False
      then show ?thesis using f Inr q1 Cons.IH by (auto intro: quiet_trans)
    next
      case True
      obtain acc' w2 where b:
        "products_loop env url (find_all_products env (the html)) acc w1 = (acc', w2)"
        by (cases "products_loop env url (find_all_products env (the html)) acc w1")
      have "quiet w1 w2" using products_loop_quiet[of w1 env url "find_all_products env (the html)" acc] b by simp
      then have "quiet w (sleep (delay_between_requests env) w2)"
        using q1 by (simp add: quiet_def upd)
      then show ?thesis
        using f Inr True b Cons.IH
        by (auto intro: quiet_trans)
    qed
  qed
qed

lemma save_to_csv_quiet: "quiet w (save_to_csv env data filename w)"
  by (simp add: save_to_csv_def quiet_def upd split: option.splits)

lemma export_to_csv_quiet: "quiet w (snd (export_to_csv env t filename w))"
  by (simp add: export_to_csv_def quiet_def upd Let_def split: option.splits)

section \<open>The item loops\<close>

lemma products_loop_eq:
  "products_loop env url items acc w =
     (acc @ parsed_products env url items,
      w\<lparr>logged := logged w @ product_errors env url items\<rparr>)"
proof (induction items arbitrary: acc w)
  case Nil
  show ?case by (simp add: parsed_products_def product_errors_def)
next
  case (Cons p ps)
  show ?case
    by (cases "product_data env url p")
       (simp_all add: Cons.IH parsed_products_def product_errors_def emit_def)
qed

lemma parse_book_cases:
  "(\<exists>e. book_fields env url b = Inl e \<and>
        parse_book env url b w = (None, emit ERROR (ParseError ''book'' e) w)) \<or>
   (\<exists>cols href d w'. book_fields env url b = Inr (cols, href) \<and>
        parse_book env url b w = (Some (cols @ [(''description'', S d)]), w') \<and>
        parse_errors (logged w') = parse_errors (logged w))"
proof (cases "book_fields env url b")
  case (Inl e)
  then show ?thesis by (simp add: parse_book_def)
next
  case (Inr p)
  obtain cols href where p: "p = (cols, href)" by (cases p)
  obtain d w' where g: "get_book_description env href w = (d, w')"
    by (cases "get_book_description env href w")
  have "parse_errors (logged w') = parse_errors (logged w)"
    using g get_book_description_snd[of env href w] fetch_page_parse_errors[of env _ w]
    by simp
  then show ?thesis using Inr p g by (simp add: parse_book_def)
qed

lemma books_loop_rows:
  "\<exists>new. fst (books_loop env url items acc w) = acc @ new \<and>
         list_all2 with_description (parsed_books env url items) new \<and>
         parse_errors (logged (snd (books_loop env url items acc w))) =
           parse_errors (logged w) @ book_errors env url items"
proof (induction items arbitrary: acc w)
  case Nil
  show ?case by (simp add: parsed_books_def book_errors_def)
next
  case (Cons b bs)
  from parse_book_cases[of env url b w] show ?case
  proof (elim disjE exE conjE)
    fix e
    assume e: "book_fields env url b = Inl e"
      "parse_book env url b w = (None, emit ERROR (ParseError ''book'' e) w)"
    from Cons.IH[of acc "emit ERROR (ParseError ''book'' e) w"]
    obtain new where
      "fst (books_loop env url bs acc (emit ERROR (ParseError ''book'' e) w)) = acc @ new"
      "list_all2 with_description (parsed_books env url bs) new"
      "parse_errors (logged (snd (books_loop env url bs acc (emit ERROR (ParseError ''book'' e) w)))) =
         parse_errors (logged (emit ERROR (ParseError ''book'' e) w)) @ book_errors env url bs"
      by blast
    then show ?thesis using e
      by (intro exI[of _ new]) (simp add: parsed_books_def book_errors_def emit_def)
  next
    fix cols href d w'
    assume s: "book_fields env url b = Inr (cols, href)"
      "parse_book env url b w = (Some (cols @ [(''description'', S d)]), w')"
      "parse_errors (logged w') = parse_errors (logged w)"
    from Cons.IH[of "acc @ [cols @ [(''description'', S d)]]" w']
    obtain new where
      "fst (books_loop env url bs (acc @ [cols @ [(''description'', S d)]]) w') =
         (acc @ [cols @ [(''description'', S d)]]) @ new"
      "list_all2 with_description (parsed_books env url bs) new"
      "parse_errors (logged (snd (books_loop env url bs (acc @ [cols @ [(''description'', S d)]]) w'))) =
         parse_errors (logged w') @ book_errors env url bs"
      by blast
    moreover have "with_description cols (cols @ [(''description'', S d)])"
      by (simp add: with_description_def)
    ultimately show ?thesis using s
      by (intro exI[of _ "(cols @ [(''description'', S d)]) # new"])
         (simp add: parsed_books_def book_errors_def)
  qed
qed

text \<open>
  C6. Parsing the items of a page never raises. The product loop returns the records of
  the items that parse, in order, after those it was given, and logs one error for each
  item that raised. The book loop does the same: its new records are the columns of
  the items that parse, each with its description, and its new parse errors are those
  of the items that raised.
\<close>

theorem item_loops_skip_malformed:
  "products_loop env url products acc w =
     (acc @ parsed_products env url products,
      w\<lparr>logged := logged w @ product_errors env url products\<rparr>) \<and>
   (\<exists>new. fst (books_loop env url books acc w) = acc @ new \<and>
          list_all2 with_description (parsed_books env url books) new \<and>
          parse_errors (logged (snd (books_loop env url books acc w))) =
            parse_errors (logged w) @ book_errors env url books)"
  using products_loop_eq[of env url products acc w] books_loop_rows[of env url books acc w]
  by blast

theorem item_loops_skip_malformed_witness:
  "length (fst (products_loop env_up ''u'' [product_full, product_bad_price, product_bare] []
                  world0)) = 2 \<and>
   length (logged (snd (products_loop env_up ''u''
                          [product_full, product_bad_price, product_bare] [] world0))) = 1"
proof -
  have e: "length (parsed_products env_up ''u''
                     [product_full, product_bad_price, product_bare]) = 2"
    "length (product_errors env_up ''u''
               [product_full, product_bad_price, product_bare]) = 1"
    by code_simp+
  show ?thesis
    using item_loops_skip_malformed[of env_up "''u''"
            "[product_full, product_bad_price, product_bare]" "[]" world0 "[]"] e
    by (simp add: world0_def)
qed

section \<open>The URL loops\<close>

lemma fetch_page_first_response:
  "0 < max_retries env \<Longrightarrow> net env (tick w) url = Inr body \<Longrightarrow>
   fetch_page env url w = (Inr (Some body), emit INFO (Fetched url) (request url w))"
  by (simp add: fetch_page_def fetch_attempts.simps[of env url 0 w])

lemma scrape_loops_skip_falsy:
  assumes "fetch_page env url (emit INFO (ScrapingFrom target url) w) = (Inr html, w1)"
    and "html = None \<or> html = Some []"
  shows "target = ''books'' \<Longrightarrow>
           scrape_books_loop env (url # urls) acc w = scrape_books_loop env urls acc w1"
    and "target = ''products'' \<Longrightarrow>
           scrape_products_loop env (url # urls) acc w = scrape_products_loop env urls acc w1"
  using assms by auto

lemma fetch_page_some_trace:
  assumes "fetch_page env url w = (Inr (Some body), w1)"
  shows "\<exists>k. int k < max_retries env \<and>
             net env (tick w + k) url = Inr body \<and>
             (\<forall>j<k. request_failed env (tick w + j) url) \<and>
             timeline w1 = timeline w @ backoff url 0 k @ [Get url] \<and>
             tick w1 = tick w + k + 1"
proof (cases "int 0 < max_retries env")
  case False
  then have "fetch_page env url w = (Inr None, w)"
    by (simp add: fetch_page_def fetch_attempts.simps[of env url 0 w])
  with assms show ?thesis by simp
next
  case True
  from fetch_attempts_trace[OF True, of w url]
  obtain k where k: "int k < max_retries env"
    "\<forall>j. 0 \<le> j \<and> j < k \<longrightarrow> request_failed env (tick w + (j - 0)) url"
    "timeline (snd (fetch_attempts env url 0 w)) = timeline w @ backoff url 0 k @ [Get url]"
    "tick (snd (fetch_attempts env url 0 w)) = tick w + (k - 0) + 1"
    "fst (fetch_attempts env url 0 w) =
       (case net env (tick w + (k - 0)) url of
          Inr body \<Rightarrow> Inr (Some body)
        | Inl e \<Rightarrow> if class_of e = RequestException then Inr None else Inl e)"
    by blast
  have "net env (tick w + k) url = Inr body"
    using k(5) assms by (auto simp: fetch_page_def split: sum.splits if_splits)
  then show ?thesis
    using k assms by (intro exI[of _ k]) (auto simp: fetch_page_def)
qed

text \<open>
  C10. Whenever the fetch of a URL returns the empty string, at the first attempt or
  after retries, both scrapers go on to the next URL with the records they had and from
  the state the fetch left: the page is not parsed, nothing is added and the politeness
  delay is not waited. That is the one equation they obey after a fetch that returned
  None. The fetcher for its part took the empty body for a success: it is the response
  to its last request, every request before it failed, and no wait or request follows
  it; at whatever attempt a response with an empty body arrives, it is returned at
  once.
\<close>

theorem empty_page_like_failure:
  assumes fetched: "fetch_page env url (emit INFO (ScrapingFrom target url) w) = (Inr html, w1)"
    and falsy: "html = None \<or> html = Some []"
  shows "(target = ''books'' \<longrightarrow>
            scrape_books_loop env (url # urls) acc w = scrape_books_loop env urls acc w1) \<and>
         (target = ''products'' \<longrightarrow>
            scrape_products_loop env (url # urls) acc w =
              scrape_products_loop env urls acc w1) \<and>
         (html = Some [] \<longrightarrow>
            (\<exists>k. int k < max_retries env \<and>
                 net env (tick w + k) url = Inr [] \<and>
                 (\<forall>j<k. request_failed env (tick w + j) url) \<and>
                 timeline w1 = timeline w @ backoff url 0 k @ [Get url] \<and>
                 tick w1 = tick w + k + 1)) \<and>
         (\<forall>a w'. int a < max_retries env \<and> net env (tick w') url = Inr [] \<longrightarrow>
                 fetch_attempts env url a w' =
                   (Inr (Some []), emit INFO (Fetched url) (request url w')))"
proof -
  have now: "fetch_attempts env url a w' =
               (Inr (Some []), emit INFO (Fetched url) (request url w'))"
    if "int a < max_retries env \<and> net env (tick w') url = Inr []" for a w'
    using that by (simp add: fetch_attempts.simps[of env url a w'])
  have "\<exists>k. int k < max_retries env \<and>
             net env (tick w + k) url = Inr [] \<and>
             (\<forall>j<k. request_failed env (tick w + j) url) \<and>
             timeline w1 = timeline w @ backoff url 0 k @ [Get url] \<and>
             tick w1 = tick w + k + 1"
    if "html = Some []"
    using fetch_page_some_trace[of env url "emit INFO (ScrapingFrom target url) w" "[]" w1]
      fetched that
    by (simp add: emit_def)
  then show ?thesis
    using scrape_loops_skip_falsy[OF fetched falsy] now by blast
qed


theorem empty_page_like_failure_witness:
  "fst (fetch_page env_retry_blank ''u'' (emit INFO (ScrapingFrom ''books'' ''u'') world0)) =
     Inr (Some []) \<and>
   timeline (snd (fetch_page env_retry_blank ''u''
                    (emit INFO (ScrapingFrom ''books'' ''u'') world0))) =
     [Get ''u'', Sleep 1, Get ''u''] \<and>
   scrape_books env_retry_blank [''u''] world0 =
     (Inr [], snd (fetch_page env_retry_blank ''u''
                     (emit INFO (ScrapingFrom ''books'' ''u'') world0))) \<and>
   fst (fetch_page env_down ''u'' (emit INFO (ScrapingFrom ''products'' ''u'') world0)) =
     Inr None \<and>
   scrape_products env_down [''u''] world0 =
     (Inr [], snd (fetch_page env_down ''u''
                     (emit INFO (ScrapingFrom ''products'' ''u'') world0)))"
proof -
  let ?b = "fetch_page env_retry_blank ''u'' (emit INFO (ScrapingFrom ''books'' ''u'') world0)"
  let ?d = "fetch_page env_down ''u'' (emit INFO (ScrapingFrom ''products'' ''u'') world0)"
  have b1: "fst ?b = Inr (Some [])" and b2: "timeline (snd ?b) = [Get ''u'', Sleep 1, Get ''u'']"
    and d1: "fst ?d = Inr None"
    by code_simp+
  have hb: "?b = (Inr (Some []), snd ?b)" using b1 by (simp add: prod_eq_iff)
  have hd: "?d = (Inr None, snd ?d)" using d1 by (simp add: prod_eq_iff)
  have fb: "Some [] = None \<or> Some [] = Some ([] :: string)" by simp
  have fd: "None = None \<or> None = Some ([] :: string)" by simp
  from empty_page_like_failure[OF hb fb, of "[]" "[]"]
  have sb: "scrape_books_loop env_retry_blank [''u''] [] world0 =
            scrape_books_loop env_retry_blank [] [] (snd ?b)"
    by simp
  from empty_page_like_failure[OF hd fd, of "[]" "[]"]
  have sd: "scrape_products_loop env_down [''u''] [] world0 =
            scrape_products_loop env_down [] [] (snd ?d)"
    by simp
  show ?thesis
    using b1 b2 d1 sb sd
    by (simp add: scrape_books_def scrape_products_def
          del: scrape_books_loop.simps(2) scrape_products_loop.simps(2))
qed

lemma fetch_attempts_timeline:
  "\<exists>evs. timeline (snd (fetch_attempts env url a w)) = timeline w @ evs"
proof (induction env url a w rule: fetch_attempts.induct)
  case (1 env url attempt w)
  show ?case
    apply (subst fetch_attempts.simps)
    using 1 by (auto simp: upd split: sum.splits)
qed

lemma parse_book_timeline:
  "\<exists>evs. timeline (snd (parse_book env url b w)) = timeline w @ evs"
proof (cases "book_fields env url b")
  case (Inl e)
  then show ?thesis by (simp add: parse_book_def emit_def)
next
  case (Inr p)
  obtain cols href where p: "p = (cols, href)" by (cases p)
  obtain d w' where g: "get_book_description env href w = (d, w')"
    by (cases "get_book_description env href w")
  have "\<exists>evs. timeline w' = timeline w @ evs"
    using g get_book_description_snd[of env href w]
      fetch_attempts_timeline[of env _ 0 w]
    by (simp add: fetch_page_def)
  then show ?thesis using Inr p g by (simp add: parse_book_def)
qed

lemma books_loop_timeline:
  "\<exists>evs. timeline (snd (books_loop env url books acc w)) = timeline w @ evs"
proof (induction books arbitrary: acc w)
  case Nil
  show ?case by simp
next
  case (Cons b bs)
  obtain r w1 where p: "parse_book env url b w = (r, w1)"
    by (cases "parse_book env url b w")
  obtain evs where e: "timeline w1 = timeline w @ evs"
    using parse_book_timeline[of env url b w] p by auto
  show ?case
  proof (cases r)
    case None
    obtain evs' where "timeline (snd (books_loop env url bs acc w1)) = timeline w1 @ evs'"
      using Cons.IH by blast
    then show ?thesis using p None e by simp
  next
    case (Some d)
    obtain evs' where
      "timeline (snd (books_loop env url bs (acc @ [d]) w1)) = timeline w1 @ evs'"
      using Cons.IH by blast
    then show ?thesis using p Some e by simp
  qed
qed

text \<open>
  C4, as the code has it. After a URL whose fetch returned a non-empty page, the scraper
  extracts the items (for books with their own requests, \<open>evs\<close>), then waits the
  politeness delay and goes on to the remaining URLs, also when none remains. After a
  URL whose fetch returned None or an empty page it goes on without waiting.
\<close>

theorem politeness_delay_after_content:
  assumes "fetch_page env url (emit INFO (ScrapingFrom target url) w) = (Inr html, w1)"
  shows "(target = ''products'' \<longrightarrow>
           (\<exists>acc' w2. scrape_products_loop env (url # urls) acc w =
                        scrape_products_loop env urls acc' w2 \<and>
                      timeline w2 = timeline w1 @
                        (if truthy html then [Sleep (delay_between_requests env)] else []))) \<and>
         (target = ''books'' \<longrightarrow>
           (\<exists>acc' w2 evs. scrape_books_loop env (url # urls) acc w =
                            scrape_books_loop env urls acc' w2 \<and>
                          timeline w2 = timeline w1 @
                            (if truthy html then evs @ [Sleep (delay_between_requests env)]
                             else [])))"
proof (intro conjI impI)
  assume t: "target = ''products''"
  show "\<exists>acc' w2. scrape_products_loop env (url # urls) acc w =
                     scrape_products_loop env urls acc' w2 \<and>
                   timeline w2 = timeline w1 @
                     (if truthy html then [Sleep (delay_between_requests env)] else [])"
  proof (cases "truthy html")
    case False
    then show ?thesis using assms t by (intro exI[of _ acc] exI[of _ w1]) simp
  next
    case True
    obtain a2 w2 where r:
      "products_loop env url (find_all_products env (the html)) acc w1 = (a2, w2)"
      by (cases "products_loop env url (find_all_products env (the html)) acc w1")
    have tl: "timeline w2 = timeline w1"
      using r by (auto simp: products_loop_eq)
    have step: "scrape_products_loop env (url # urls) acc w =
                scrape_products_loop env urls a2 (sleep (delay_between_requests env) w2)"
      using assms t True r by simp
    show ?thesis
      by (intro exI[of _ a2] exI[of _ "sleep (delay_between_requests env) w2"])
         (simp add: step tl True sleep_def del: scrape_products_loop.simps
            scrape_books_loop.simps)
  qed
next
  assume t: "target = ''books''"
  show "\<exists>acc' w2 evs. scrape_books_loop env (url # urls) acc w =
                         scrape_books_loop env urls acc' w2 \<and>
                       timeline w2 = timeline w1 @
                         (if truthy html then evs @ [Sleep (delay_between_requests env)]
                          else [])"
  proof (cases "truthy html")
    case False
    then show ?thesis using assms t by (intro exI[of _ acc] exI[of _ w1]) simp
  next
    case True
    obtain a2 w2 where r:
      "books_loop env url (find_all_books env (the html)) acc w1 = (a2, w2)"
      by (cases "books_loop env url (find_all_books env (the html)) acc w1")
    obtain evs where tl: "timeline w2 = timeline w1 @ evs"
      using books_loop_timeline[of env url "find_all_books env (the html)" acc w1] r by auto
    have step: "scrape_books_loop env (url # urls) acc w =
                scrape_books_loop env urls a2 (sleep (delay_between_requests env) w2)"
      using assms t True r by simp
    show ?thesis
      by (intro exI[of _ a2] exI[of _ "sleep (delay_between_requests env) w2"] exI[of _ evs])
         (simp add: step tl True sleep_def del: scrape_products_loop.simps
            scrape_books_loop.simps)
  qed
qed

text \<open>
  C4 as stated fails: of two URLs, the first timing out and the second answering, the
  delay is not waited after the first and is waited after the last.
\<close>

theorem politeness_delay_counterexample:
  "timeline (snd (scrape_products env_mixed [''https://a.example/'', ''https://b.example/'']
                    world0)) =
     [Get ''https://a.example/'', Sleep 1, Get ''https://a.example/'', Sleep 2,
      Get ''https://a.example/'', Get ''https://b.example/'', Sleep 5] \<and>
   timeline (snd (scrape_products env_mixed [''https://a.example/'', ''https://b.example/'']
                    world0)) \<noteq>
     [Get ''https://a.example/'', Sleep 1, Get ''https://a.example/'', Sleep 2,
      Get ''https://a.example/'', Sleep 5, Get ''https://b.example/'']"
  by code_simp


theorem politeness_delay_after_content_witness:
  "fetch_page env_up ''u'' (emit INFO (ScrapingFrom ''products'' ''u'') world0) =
     (Inr (Some ''page''),
      emit INFO (Fetched ''u'') (request ''u'' (emit INFO (ScrapingFrom ''products'' ''u'') world0))) \<and>
   timeline (snd (scrape_products env_up [''u''] world0)) =
     [Get ''u'', Sleep (delay_between_requests env_up)]"
proof -
  let ?w1 = "emit INFO (Fetched ''u'')
               (request ''u'' (emit INFO (ScrapingFrom ''products'' ''u'') world0))"
  have h: "fetch_page env_up ''u'' (emit INFO (ScrapingFrom ''products'' ''u'') world0) =
             (Inr (Some ''page''), ?w1)"
    by (rule fetch_page_first_response) (simp_all add: env_up_def)
  from politeness_delay_after_content[OF h, where urls = "[]" and acc = "[]"]
  obtain acc' w2 where
    s: "scrape_products_loop env_up [''u''] [] world0 = scrape_products_loop env_up [] acc' w2"
    and t: "timeline w2 = timeline ?w1 @ [Sleep (delay_between_requests env_up)]"
    by auto
  have "timeline ?w1 = [Get ''u'']"
    by (simp add: upd world0_def)
  with s t h show ?thesis
    by (simp add: scrape_products_def del: scrape_products_loop.simps(2))
qed

section \<open>Absent elements\<close>





section \<open>The job\<close>

lemma scrape_target_quiet: "quiet w (snd (scrape_target env target w))"
  by (simp add: scrape_target_def scrape_books_def scrape_products_def
        scrape_books_loop_quiet scrape_products_loop_quiet)

lemma export_latest_quiet: "quiet w (export_latest env target data w)"
  unfolding export_latest_def
  by (rule quiet_trans[OF save_to_csv_quiet export_to_csv_quiet])

lemma job_try_known:
  "target = ''books'' \<or> target = ''products'' \<Longrightarrow>
   job_try env target w =
     (case scrape_target env target (emit INFO (JobStart target) w) of
        (Inl e, w1) \<Rightarrow> (Inl e, w1)
      | (Inr data, w1) \<Rightarrow>
          (case save_data env data target w1 of
             (Inl e, w2) \<Rightarrow> (Inl e, w2)
           | (Inr n, w2) \<Rightarrow> job_logged env target n (export_latest env target data w2)))"
  by (auto simp: job_try_def scrape_target_def export_latest_def save_books_def
        save_products_def split: prod.splits sum.splits)

lemma job_try_unknown:
  "target \<noteq> ''books'' \<Longrightarrow> target \<noteq> ''products'' \<Longrightarrow>
   job_try env target w =
     (Inl (Exn ValueError (''Unknown target: '' @ target)), emit INFO (JobStart target) w)"
  by (simp add: job_try_def)

lemma save_data_tables:
  assumes "target = ''books'' \<or> target = ''products''"
  shows "(\<exists>e. fst (save_data env data target w) = Inl e \<and>
              tables (snd (save_data env data target w)) = tables w) \<or>
         (\<exists>rows. fst (save_data env data target w) = Inr (length rows) \<and>
              tables (snd (save_data env data target w)) =
                (tables w)(target := tables w target @ rows))"
proof (cases "data = []")
  case True
  then show ?thesis by (intro disjI2 exI[of _ "[]"]) (simp add: save_data_def)
next
  case False
  show ?thesis
  proof (cases "db env (tick w) (InsertRows target)")
    case None
    then show ?thesis using False assms
      by (intro disjI2 exI[of _ data]) (auto simp: save_data_def upd)
  next
    case (Some e)
    show ?thesis
    proof (cases "class_of e = SQLAlchemyError")
      case True
      then show ?thesis using False Some
        by (intro disjI2 exI[of _ "[]"]) (simp add: save_data_def upd)
    next
      case False
      then show ?thesis using \<open>data \<noteq> []\<close> Some
        by (intro disjI1 exI[of _ e]) (simp add: save_data_def upd)
    qed
  qed
qed


lemma job_logged_accepted:
  "db env (tick w) InsertLog = None \<Longrightarrow>
   fst (job_logged env target n w) = Inr True \<and>
   tables (snd (job_logged env target n w)) =
     (tables w)(''scraping_logs'' :=
        tables w ''scraping_logs'' @ [log_entry target ''success'' n None])"
  by (simp add: job_logged_def log_scraping_run_def upd)

lemma log_failed_accepted:
  "db env (tick w) InsertLog = None \<Longrightarrow>
   fst (log_scraping_run env target ''failed'' 0 (Some m) w) = Inr () \<and>
   tables (snd (log_scraping_run env target ''failed'' 0 (Some m) w)) =
     (tables w)(''scraping_logs'' :=
        tables w ''scraping_logs'' @ [log_entry target ''failed'' 0 (Some m)])"
  by (simp add: log_scraping_run_def upd)

text \<open>The try block when the store accepts every append to the log: either an exception
  leaves it and the tables are as before, or it ends with the rows the store accepted
  and the entry of a success.\<close>

lemma job_try_effect:
  assumes logs_ok: "\<forall>n. db env n InsertLog = None"
  shows "(\<exists>e. fst (job_try env target w) = Inl e \<and>
              tables (snd (job_try env target w)) = tables w) \<or>
         (\<exists>rows. fst (job_try env target w) = Inr True \<and>
              tables (snd (job_try env target w)) =
                (tables w)(target := tables w target @ rows,
                           ''scraping_logs'' := tables w ''scraping_logs'' @
                              [log_entry target ''success'' (length rows) None]))"
proof (cases "target = ''books'' \<or> target = ''products''")
  case False
  then show ?thesis by (simp add: job_try_unknown upd)
next
  case known: True
  let ?w0 = "emit INFO (JobStart target) w"
  obtain r1 w1 where s: "scrape_target env target ?w0 = (r1, w1)"
    by (cases "scrape_target env target ?w0")
  have t1: "tables w1 = tables w"
    using scrape_target_quiet[of ?w0 env target] s by (simp add: quiet_def upd)
  show ?thesis
  proof (cases r1)
    case (Inl e)
    then show ?thesis using s t1 known by (simp add: job_try_known)
  next
    case (Inr data)
    obtain r2 w2 where sv: "save_data env data target w1 = (r2, w2)"
      by (cases "save_data env data target w1")
    from save_data_tables[OF known, of env data w1] sv
    consider e where "r2 = Inl e" "tables w2 = tables w1"
      | rows where "r2 = Inr (length rows)"
          "tables w2 = (tables w1)(target := tables w1 target @ rows)"
      by auto
    then show ?thesis
    proof cases
      case 1
      then show ?thesis using s Inr sv t1 known by (simp add: job_try_known)
    next
      case 2
      let ?w3 = "export_latest env target data w2"
      have t3: "tables ?w3 = tables w2"
        using export_latest_quiet[of w2 env target data] by (simp add: quiet_def)
      have l: "target \<noteq> ''scraping_logs''" using known by auto
      have j: "job_try env target w = job_logged env target (length rows) ?w3"
        using s Inr sv 2 known by (simp add: job_try_known)
      show ?thesis
        using job_logged_accepted[of env ?w3 target "length rows"] logs_ok 2 t1 t3 l
        by (intro disjI2 exI[of _ rows]) (simp add: j fun_upd_twist)
    qed
  qed
qed

lemma run_scraping_job_effect:
  assumes logs_ok: "\<forall>n. db env n InsertLog = None"
  shows "\<exists>b rows err.
           fst (run_scraping_job env target w) = Inr b \<and>
           tables (snd (run_scraping_job env target w)) =
             (tables w)(target := tables w target @ rows,
                        ''scraping_logs'' := tables w ''scraping_logs'' @
                           [log_entry target (if b then ''success'' else ''failed'')
                              (length rows) err]) \<and>
           (b \<and> err = None \<or> \<not> b \<and> rows = [] \<and> err \<noteq> None)"
proof -
  obtain r w1 where j: "job_try env target w = (r, w1)"
    by (cases "job_try env target w")
  from job_try_effect[OF logs_ok, of target w] j
  consider e where "r = Inl e" "tables w1 = tables w"
    | rows where "r = Inr True"
        "tables w1 = (tables w)(target := tables w target @ rows,
                                ''scraping_logs'' := tables w ''scraping_logs'' @
                                   [log_entry target ''success'' (length rows) None])"
    by auto
  then show ?thesis
  proof cases
    case 1
    let ?w2 = "emit ERROR (JobFailed target e) w1"
    have "db env (tick ?w2) InsertLog = None" using logs_ok by simp
    from log_failed_accepted[OF this, of target "str_exn e"] 1 j
    show ?thesis
      by (intro exI[of _ False] exI[of _ "[]"] exI[of _ "Some (str_exn e)"])
         (auto simp: run_scraping_job_def upd split: prod.splits sum.splits)
  next
    case 2
    then show ?thesis using j
      by (intro exI[of _ True] exI[of _ rows] exI[of _ None])
         (simp add: run_scraping_job_def)
  qed
qed

text \<open>
  C3, as the code has it. When the store accepts the append to the log, a job for any
  target identifier, known or not, and whatever fails in scraping, saving or exporting,
  returns a boolean and leaves exactly one new entry in the log, for its target; the
  boolean is true exactly when the entry's status is success, false exactly when it
  is failed.
\<close>

theorem run_job_logs_once:
  assumes "\<forall>n. db env n InsertLog = None"
  shows "\<exists>b entry.
           fst (run_scraping_job env target w) = Inr b \<and>
           tables (snd (run_scraping_job env target w)) ''scraping_logs'' =
             tables w ''scraping_logs'' @ [entry] \<and>
           map_of entry ''target'' = Some (S target) \<and>
           b = (map_of entry ''status'' = Some (S ''success'')) \<and>
           (\<not> b) = (map_of entry ''status'' = Some (S ''failed''))"
proof -
  from run_scraping_job_effect[OF assms, of target w]
  obtain b rows err where
    r: "fst (run_scraping_job env target w) = Inr b"
    and t: "tables (snd (run_scraping_job env target w)) =
             (tables w)(target := tables w target @ rows,
                        ''scraping_logs'' := tables w ''scraping_logs'' @
                           [log_entry target (if b then ''success'' else ''failed'')
                              (length rows) err])"
    by blast
  show ?thesis
    by (intro exI[of _ b]
          exI[of _ "log_entry target (if b then ''success'' else ''failed'') (length rows) err"])
       (simp add: r t log_entry_def)
qed

theorem run_job_logs_once_witness:
  "(\<forall>n. db env_down n InsertLog = None) \<and>
   fst (run_scraping_job env_down ''music'' world0) = Inr False \<and>
   (\<exists>entry. tables (snd (run_scraping_job env_down ''music'' world0)) ''scraping_logs'' = [entry] \<and>
            map_of entry ''status'' = Some (S ''failed''))"
proof -
  have h: "\<forall>n. db env_down n InsertLog = None"
    by (simp add: env_down_def)
  have e: "fst (run_scraping_job env_down ''music'' world0) = Inr False"
    by code_simp
  have l: "tables world0 ''scraping_logs'' = []"
    by (simp add: world0_def)
  from run_job_logs_once[OF h, of "''music''" world0] e l h show ?thesis
    by auto
qed

text \<open>
  C3 as stated fails where the failure is the log's own: \<^verbatim>\<open>log_scraping_run\<close> swallows
  the SQLAlchemyError of its insert, the job returns True and the log has no new entry.
\<close>

theorem run_job_logs_once_counterexample:
  "fst (run_scraping_job env_log_rejected ''books'' world0) = Inr True \<and>
   tables (snd (run_scraping_job env_log_rejected ''books'' world0)) ''scraping_logs'' = []"
  by code_simp





section \<open>An unreachable target\<close>

lemma fetch_page_unreachable:
  assumes "\<forall>n. request_failed env n url"
  shows "fst (fetch_page env url w) = Inr None"
proof (cases "int 0 < max_retries env")
  case True
  from fetch_attempts_trace[OF True, of w url]
  obtain k where "fst (fetch_attempts env url 0 w) =
       (case net env (tick w + (k - 0)) url of
          Inr body \<Rightarrow> Inr (Some body)
        | Inl e \<Rightarrow> if class_of e = RequestException then Inr None else Inl e)"
    by blast
  moreover have "request_failed env (tick w + (k - 0)) url" using assms by blast
  ultimately show ?thesis
    by (auto simp: fetch_page_def request_failed_def split: sum.splits)
next
  case False
  then show ?thesis
    by (simp add: fetch_page_def fetch_attempts.simps[of env url 0 w])
qed

lemma scrape_books_loop_unreachable:
  assumes "\<forall>n u. request_failed env n u"
  shows "fst (scrape_books_loop env urls acc w) = Inr acc"
proof (induction urls arbitrary: w)
  case Nil
  show ?case by simp
next
  case (Cons url urls)
  let ?w0 = "emit INFO (ScrapingFrom ''books'' url) w"
  have "fst (fetch_page env url ?w0) = Inr None"
    using assms by (intro fetch_page_unreachable) blast
  then show ?case using Cons.IH
    by (cases "fetch_page env url ?w0") simp
qed

lemma scrape_products_loop_unreachable:
  assumes "\<forall>n u. request_failed env n u"
  shows "fst (scrape_products_loop env urls acc w) = Inr acc"
proof (induction urls arbitrary: w)
  case Nil
  show ?case by simp
next
  case (Cons url urls)
  let ?w0 = "emit INFO (ScrapingFrom ''products'' url) w"
  have "fst (fetch_page env url ?w0) = Inr None"
    using assms by (intro fetch_page_unreachable) blast
  then show ?case using Cons.IH
    by (cases "fetch_page env url ?w0") simp
qed



section \<open>Saving and exporting\<close>

lemma export_to_csv_file:
  assumes "known_table t" and "export_to_csv env t filename w = (Some path, w')"
  shows "files w' path = Some (Csv (tables w t))"
  using assms
  by (auto simp: export_to_csv_def Let_def upd split: option.splits if_splits)

text \<open>
  C9, as the code has it. For the tables books and products, when the save returns a
  count and the export that follows succeeds, the exported file has as many rows as the
  table held before the save plus that count: the export writes the whole table, not
  the rows of this call.
\<close>

theorem export_counts_table:
  assumes known: "t = ''books'' \<or> t = ''products''"
    and saved: "save_data env data t w = (Inr n, w1)"
    and exported: "export_to_csv env t filename w1 = (Some path, w2)"
  shows "csv_rows (files w2 path) = Some (length (tables w t) + n)"
proof -
  from save_data_tables[OF known, of env data w] saved
  obtain rows where "n = length rows" "tables w1 = (tables w)(t := tables w t @ rows)"
    by auto
  then show ?thesis
    using export_to_csv_file[OF _ exported] known by (auto simp: csv_rows_def known_table_def)
qed

theorem export_counts_table_witness:
  "fst (save_data env_up [emma] ''books'' world_stocked) = Inr 1 \<and>
   fst (export_to_csv env_up ''books'' None (snd (save_data env_up [emma] ''books'' world_stocked))) =
     Some ''output/books.csv'' \<and>
   csv_rows
     (files
        (snd (export_to_csv env_up ''books'' None
                (snd (save_data env_up [emma] ''books'' world_stocked))))
        ''output/books.csv'') = Some (length (tables world_stocked ''books'') + 1)"
proof -
  let ?w1 = "snd (save_data env_up [emma] ''books'' world_stocked)"
  let ?w2 = "snd (export_to_csv env_up ''books'' None ?w1)"
  have k: "''books'' = ''books'' \<or> ''books'' = ''products''"
    by simp
  have s1: "fst (save_data env_up [emma] ''books'' world_stocked) = Inr 1"
    by code_simp
  have e1: "fst (export_to_csv env_up ''books'' None ?w1) = Some ''output/books.csv''"
    by code_simp
  have s: "save_data env_up [emma] ''books'' world_stocked = (Inr 1, ?w1)"
    using s1 by (simp add: prod_eq_iff)
  have e: "export_to_csv env_up ''books'' None ?w1 = (Some ''output/books.csv'', ?w2)"
    using e1 by (simp add: prod_eq_iff)
  from export_counts_table[OF k s e] s1 e1 show ?thesis
    by simp
qed

text \<open>
  C9 as stated fails on a table that is not empty: one record saved into a table of one
  row returns the count 1, and the export has 2 rows.
\<close>

theorem export_counts_table_counterexample:
  "fst (save_data env_up [emma] ''books'' world_stocked) = Inr 1 \<and>
   fst (export_to_csv env_up ''books'' None (snd (save_data env_up [emma] ''books'' world_stocked))) =
     Some ''output/books.csv'' \<and>
   csv_rows
     (files
        (snd (export_to_csv env_up ''books'' None
                (snd (save_data env_up [emma] ''books'' world_stocked))))
        ''output/books.csv'') = Some 2"
  by code_simp

section \<open>The run\<close>

lemma save_data_starts:
  "job_starts (logged (snd (save_data env data t w))) = job_starts (logged w)"
  by (simp add: save_data_def upd split: option.splits)

lemma log_scraping_run_starts:
  "job_starts (logged (snd (log_scraping_run env t s n m w))) = job_starts (logged w)"
  by (simp add: log_scraping_run_def upd split: option.splits)

lemma job_logged_starts:
  "job_starts (logged (snd (job_logged env t n w))) = job_starts (logged w)"
  using log_scraping_run_starts[of env t "''success''" n None w]
  by (cases "log_scraping_run env t ''success'' n None w")
     (auto simp: job_logged_def upd split: sum.splits)

lemma job_try_starts:
  "job_starts (logged (snd (job_try env target w))) = job_starts (logged w) @ [target]"
proof (cases "target = ''books'' \<or> target = ''products''")
  case False
  then show ?thesis by (simp add: job_try_unknown upd)
next
  case known: True
  let ?w0 = "emit INFO (JobStart target) w"
  have s0: "job_starts (logged ?w0) = job_starts (logged w) @ [target]"
    by (simp add: upd)
  obtain r1 w1 where s: "scrape_target env target ?w0 = (r1, w1)"
    by (cases "scrape_target env target ?w0")
  have s1: "job_starts (logged w1) = job_starts (logged ?w0)"
    using scrape_target_quiet[of ?w0 env target] s by (simp add: quiet_def)
  show ?thesis
  proof (cases r1)
    case (Inl e)
    then show ?thesis using s s0 s1 known by (simp add: job_try_known)
  next
    case (Inr data)
    obtain r2 w2 where sv: "save_data env data target w1 = (r2, w2)"
      by (cases "save_data env data target w1")
    have s2: "job_starts (logged w2) = job_starts (logged w1)"
      using save_data_starts[of env data target w1] sv by simp
    show ?thesis
    proof (cases r2)
      case (Inl e)
      then show ?thesis using s Inr sv s0 s1 s2 known by (simp add: job_try_known)
    next
      case n: (Inr n)
      let ?w3 = "export_latest env target data w2"
      have s3: "job_starts (logged ?w3) = job_starts (logged w2)"
        using export_latest_quiet[of w2 env target data] by (simp add: quiet_def)
      show ?thesis
        using s Inr sv n known s0 s1 s2 s3 job_logged_starts[of env target n ?w3]
        by (simp add: job_try_known)
    qed
  qed
qed

lemma run_scraping_job_starts:
  "job_starts (logged (snd (run_scraping_job env target w))) = job_starts (logged w) @ [target]"
proof -
  obtain r w1 where j: "job_try env target w = (r, w1)"
    by (cases "job_try env target w")
  have s1: "job_starts (logged w1) = job_starts (logged w) @ [target]"
    using job_try_starts[of env target w] j by simp
  show ?thesis
  proof (cases r)
    case (Inr b)
    then show ?thesis using j s1 by (simp add: run_scraping_job_def)
  next
    case (Inl e)
    let ?w2 = "emit ERROR (JobFailed target e) w1"
    have "job_starts (logged (snd (log_scraping_run env target ''failed'' 0
                                     (Some (str_exn e)) ?w2))) = job_starts (logged w1)"
      by (simp add: log_scraping_run_starts upd)
    then show ?thesis using j Inl s1
      by (cases "log_scraping_run env target ''failed'' 0 (Some (str_exn e)) ?w2")
         (auto simp: run_scraping_job_def split: sum.splits)
  qed
qed

lemma log_scraping_run_returns:
  assumes "\<forall>n e. db env n InsertLog = Some e \<longrightarrow> class_of e = SQLAlchemyError"
  shows "fst (log_scraping_run env t s n m w) = Inr ()"
  using assms by (auto simp: log_scraping_run_def split: option.splits)

lemma run_scraping_job_returns:
  assumes "\<forall>n e. db env n InsertLog = Some e \<longrightarrow> class_of e = SQLAlchemyError"
  shows "\<exists>b. fst (run_scraping_job env target w) = Inr b"
proof -
  obtain r w1 where j: "job_try env target w = (r, w1)"
    by (cases "job_try env target w")
  show ?thesis
  proof (cases r)
    case (Inr b)
    then show ?thesis using j by (simp add: run_scraping_job_def)
  next
    case (Inl e)
    let ?w2 = "emit ERROR (JobFailed target e) w1"
    from log_scraping_run_returns[OF assms, of target "''failed''" 0 "Some (str_exn e)" ?w2]
    show ?thesis using j Inl
      by (cases "log_scraping_run env target ''failed'' 0 (Some (str_exn e)) ?w2")
         (auto simp: run_scraping_job_def)
  qed
qed


lemma get_scraping_stats_starts:
  "job_starts (logged (snd (get_scraping_stats env w))) = job_starts (logged w)"
  by (simp add: get_scraping_stats_def upd Let_def split: option.splits)

lemma get_scraping_stats_failed:
  "db env (tick w) SelectStats \<noteq> None \<Longrightarrow> fst (get_scraping_stats env w) = []"
  by (auto simp: get_scraping_stats_def split: option.splits)

text \<open>
  C7, as the code has it. Provided the appends to the log raise nothing but the store's
  own SQLAlchemyError and the report file can be written, \<^verbatim>\<open>run_all_scraping_jobs\<close>
  returns: whatever the books job returns (\<open>b1\<close>), the products job is run after it,
  from the state the books job left; the result maps books to \<open>b1\<close> and products to the
  outcome \<open>b2\<close> of the products job; the two jobs are started in that order; and the
  report is written from the statistics and the results. When the statistics cannot be
  computed they are the empty dict, and the report shows the defaults.
\<close>

theorem run_all_complete:
  assumes log_benign: "\<forall>n e. db env n InsertLog = Some e \<longrightarrow> class_of e = SQLAlchemyError"
    and report_ok: "\<forall>n. fs env n ''output/scraping_report.txt'' = None"
  shows "\<exists>b1 b2 stats.
           fst (run_scraping_job env ''books'' (emit INFO AllStart w)) = Inr b1 \<and>
           fst (run_scraping_job env ''products''
                  (sleep 2 (snd (run_scraping_job env ''books'' (emit INFO AllStart w))))) =
             Inr b2 \<and>
           fst (run_all_scraping_jobs env w) = Inr [''books'' \<mapsto> b1, ''products'' \<mapsto> b2] \<and>
           job_starts (logged (snd (run_all_scraping_jobs env w))) =
             job_starts (logged w) @ [''books'', ''products''] \<and>
           files (snd (run_all_scraping_jobs env w)) ''output/scraping_report.txt'' =
             Some (Report (report_text stats [''books'' \<mapsto> b1, ''products'' \<mapsto> b2])) \<and>
           ((\<forall>n. db env n SelectStats \<noteq> None) \<longrightarrow>
              stats = [] \<and>
              map_of (report_text stats [''books'' \<mapsto> b1, ''products'' \<mapsto> b2]) ''Total Books'' =
                Some (I 0) \<and>
              map_of (report_text stats [''books'' \<mapsto> b1, ''products'' \<mapsto> b2])
                ''Overall Success Rate'' = Some (I 0))"
proof -
  let ?w0 = "emit INFO AllStart w"
  obtain r1 w1 where j1: "run_scraping_job env ''books'' ?w0 = (r1, w1)"
    by (cases "run_scraping_job env ''books'' ?w0")
  obtain b1 where b1: "r1 = Inr b1"
    using run_scraping_job_returns[OF log_benign, of "''books''" ?w0] j1 by auto
  obtain r2 w2 where j2: "run_scraping_job env ''products'' (sleep 2 w1) = (r2, w2)"
    by (cases "run_scraping_job env ''products'' (sleep 2 w1)")
  obtain b2 where b2: "r2 = Inr b2"
    using run_scraping_job_returns[OF log_benign, of "''products''" "sleep 2 w1"] j2 by auto
  let ?results = "[''books'' \<mapsto> b1, ''products'' \<mapsto> b2]"
  have jobs: "run_jobs env [''books'', ''products''] Map.empty ?w0 = (Inr ?results, sleep 2 w2)"
    using j1 b1 j2 b2 by simp
  obtain stats w3 where st: "get_scraping_stats env (sleep 2 w2) = (stats, w3)"
    by (cases "get_scraping_stats env (sleep 2 w2)")
  let ?w4 = "(outside w3)\<lparr>files :=
               (files w3)(''output/scraping_report.txt'' \<mapsto> Report (report_text stats ?results))\<rparr>"
  have rep: "generate_report env stats ?results w3 = (Inr (), ?w4)"
    using report_ok by (simp add: generate_report_def)
  have all: "run_all_scraping_jobs env w = (Inr ?results, emit INFO AllDone ?w4)"
    using jobs st rep by (simp add: run_all_scraping_jobs_def)
  have s1: "job_starts (logged w1) = job_starts (logged w) @ [''books'']"
    using run_scraping_job_starts[of env "''books''" ?w0] j1 by (simp add: upd)
  have s2: "job_starts (logged w2) = job_starts (logged w) @ [''books'', ''products'']"
    using run_scraping_job_starts[of env "''products''" "sleep 2 w1"] j2 s1 by (simp add: upd)
  have s3: "job_starts (logged w3) = job_starts (logged w2)"
    using get_scraping_stats_starts[of env "sleep 2 w2"] st by (simp add: upd)
  have failed: "stats = []" if "\<forall>n. db env n SelectStats \<noteq> None"
    using get_scraping_stats_failed[of env "sleep 2 w2"] that st by simp
  have dflt: "map_of (report_text [] ?results) ''Total Books'' = Some (I 0)"
    "map_of (report_text [] ?results) ''Overall Success Rate'' = Some (I 0)"
    by (simp_all add: report_text_def dict_get_def)
  have c1: "fst (run_scraping_job env ''books'' ?w0) = Inr b1"
    using j1 b1 by simp
  have c2: "fst (run_scraping_job env ''products''
                   (sleep 2 (snd (run_scraping_job env ''books'' ?w0)))) = Inr b2"
    using j1 j2 b2 by simp
  have c3: "fst (run_all_scraping_jobs env w) = Inr ?results"
    using all by simp
  have c4: "job_starts (logged (snd (run_all_scraping_jobs env w))) =
              job_starts (logged w) @ [''books'', ''products'']"
    using all s2 s3 by (simp add: upd)
  have c5: "files (snd (run_all_scraping_jobs env w)) ''output/scraping_report.txt'' =
              Some (Report (report_text stats ?results))"
    using all by (simp add: upd)
  have c6: "(\<forall>n. db env n SelectStats \<noteq> None) \<longrightarrow>
              stats = [] \<and>
              map_of (report_text stats ?results) ''Total Books'' = Some (I 0) \<and>
              map_of (report_text stats ?results) ''Overall Success Rate'' = Some (I 0)"
    using failed dflt by simp
  from c1 c2 c3 c4 c5 c6 show ?thesis
    by (rule_tac x = b1 in exI, rule_tac x = b2 in exI, rule_tac x = stats in exI)
       (intro conjI; assumption)
qed


lemma run_all_report_denied:
  assumes log_benign: "\<forall>n e. db env n InsertLog = Some e \<longrightarrow> class_of e = SQLAlchemyError"
    and denied: "\<forall>n. fs env n ''output/scraping_report.txt'' = Some e"
  shows "fst (run_all_scraping_jobs env w) = Inl e"
proof -
  let ?w0 = "emit INFO AllStart w"
  obtain r1 w1 where j1: "run_scraping_job env ''books'' ?w0 = (r1, w1)"
    by (cases "run_scraping_job env ''books'' ?w0")
  obtain b1 where b1: "r1 = Inr b1"
    using run_scraping_job_returns[OF log_benign, of "''books''" ?w0] j1 by auto
  obtain r2 w2 where j2: "run_scraping_job env ''products'' (sleep 2 w1) = (r2, w2)"
    by (cases "run_scraping_job env ''products'' (sleep 2 w1)")
  obtain b2 where b2: "r2 = Inr b2"
    using run_scraping_job_returns[OF log_benign, of "''products''" "sleep 2 w1"] j2 by auto
  let ?results = "[''books'' \<mapsto> b1, ''products'' \<mapsto> b2]"
  have jobs: "run_jobs env [''books'', ''products''] Map.empty ?w0 = (Inr ?results, sleep 2 w2)"
    using j1 b1 j2 b2 by simp
  obtain stats w3 where st: "get_scraping_stats env (sleep 2 w2) = (stats, w3)"
    by (cases "get_scraping_stats env (sleep 2 w2)")
  have rep: "generate_report env stats ?results w3 = (Inl e, outside w3)"
    using denied by (simp add: generate_report_def)
  show ?thesis
    using jobs st rep by (simp add: run_all_scraping_jobs_def)
qed

lemma run_scraping_job_unreachable:
  assumes down: "\<forall>n u. request_failed env n u"
    and known: "target = ''books'' \<or> target = ''products''"
    and logs_ok: "\<forall>n. db env n InsertLog = None"
  shows "fst (run_scraping_job env target w) = Inr True"
proof -
  let ?w0 = "emit INFO (JobStart target) w"
  obtain r w1 where s: "scrape_target env target ?w0 = (r, w1)"
    by (cases "scrape_target env target ?w0")
  have "fst (scrape_target env target ?w0) = Inr []"
    using scrape_books_loop_unreachable[OF down] scrape_products_loop_unreachable[OF down]
    by (simp add: scrape_target_def scrape_books_def scrape_products_def)
  then have r: "r = Inr []" using s by simp
  let ?w4 = "export_latest env target [] w1"
  have j: "job_try env target w = job_logged env target 0 ?w4"
    using known s r by (simp add: job_try_known save_data_def)
  have a: "db env (tick ?w4) InsertLog = None" using logs_ok by simp
  show ?thesis
    using job_logged_accepted[OF a, of target 0] j
    by (auto simp: run_scraping_job_def split: prod.splits sum.splits)
qed

theorem run_all_complete_witness:
  "(\<forall>n. fs env_stats_broken n ''output/scraping_report.txt'' = None) \<and>
   (\<forall>n. db env_stats_broken n SelectStats \<noteq> None) \<and>
   fst (run_all_scraping_jobs env_stats_broken world0) =
     Inr [''books'' \<mapsto> True, ''products'' \<mapsto> True] \<and>
   job_starts (logged (snd (run_all_scraping_jobs env_stats_broken world0))) =
     [''books'', ''products''] \<and>
   files (snd (run_all_scraping_jobs env_stats_broken world0)) ''output/scraping_report.txt'' =
     Some (Report (report_text [] [''books'' \<mapsto> True, ''products'' \<mapsto> True]))"
proof -
  have lb: "\<forall>n e. db env_stats_broken n InsertLog = Some e \<longrightarrow> class_of e = SQLAlchemyError"
    and lo: "\<forall>n. db env_stats_broken n InsertLog = None"
    and ro: "\<forall>n. fs env_stats_broken n ''output/scraping_report.txt'' = None"
    and sb: "\<forall>n. db env_stats_broken n SelectStats \<noteq> None"
    and dn: "\<forall>n u. request_failed env_stats_broken n u"
    by (simp_all add: env_stats_broken_def env_down_def request_failed_def)
  have t: "\<And>w. fst (run_scraping_job env_stats_broken ''books'' w) = Inr True"
    "\<And>w. fst (run_scraping_job env_stats_broken ''products'' w) = Inr True"
    using run_scraping_job_unreachable[OF dn _ lo] by simp_all
  have l: "job_starts (logged world0) = []"
    by (simp add: world0_def)
  from run_all_complete[OF lb ro, of world0] t sb l ro show ?thesis
    by auto
qed

text \<open>
  C7 as stated fails: nothing in \<^verbatim>\<open>_generate_report\<close> or \<^verbatim>\<open>run_all_scraping_jobs\<close>
  catches the exception of writing the report file, so the run raises it.
\<close>

theorem run_all_complete_counterexample:
  "fst (run_all_scraping_jobs env_report_denied world0) = Inl (Exn OSError ''Permission denied'')"
proof -
  have lb: "\<forall>n e. db env_report_denied n InsertLog = Some e \<longrightarrow> class_of e = SQLAlchemyError"
    by (simp add: env_report_denied_def env_down_def)
  have dn: "\<forall>n. fs env_report_denied n ''output/scraping_report.txt'' =
              Some (Exn OSError ''Permission denied'')"
    by (simp add: env_report_denied_def)
  show ?thesis
    by (rule run_all_report_denied[OF lb dn])
qed

end
